theory Spec2Isabelle
  imports Main "HOL-Library.Word" "HOL-Library.Char_ord" "HOL-Library.List_Lexorder"
begin

section \<open>Outcomes of a call\<close>

text \<open>
  The engine is C++. A call either returns, throws \<^verbatim>\<open>std::runtime_error\<close>, stops at a
  failed \<^verbatim>\<open>assert\<close>, or leaves defined behaviour (a read outside the page buffer, a
  signed overflow). The repository's tests call \<^verbatim>\<open>create_table\<close> and \<^verbatim>\<open>open_table\<close>
  inside \<^verbatim>\<open>assert(...)\<close>, so the code is built with assertions compiled in: a failed
  assertion ends the run, and the statement written after \<^verbatim>\<open>assert(false)\<close> is never
  reached. Each of these outcomes is a value of \<open>error\<close>; a result is \<open>error + 'a\<close>
  with \<open>Inl\<close> for the error.
\<close>

datatype error =
    AssertionFailed string
  | RuntimeError string
  | UndefinedBehaviour

definition andThen :: "error + 'a \<Rightarrow> ('a \<Rightarrow> error + 'b) \<Rightarrow> error + 'b" where
  "andThen m f = (case m of Inl e \<Rightarrow> Inl e | Inr x \<Rightarrow> f x)"

section \<open>Expression evaluation (src/executor/evaluator.cpp)\<close>

text \<open>
  \<^verbatim>\<open>using Value = std::variant<int, std::string>\<close> (types.h). The engine's \<^verbatim>\<open>int\<close> is a
  32-bit two's complement integer, read through \<open>sint\<close>.
\<close>

datatype EvalValue = IntValue "32 word" | StringValue string

type_synonym Tuple = "EvalValue list"

text \<open>
  \<^verbatim>\<open>Expr*\<close> (expr_defs.h): a null pointer, or a node whose \<^verbatim>\<open>kind\<close> is one of
  Identifier, Number, String, Unary, Binary. No node type is declared for Unary; the
  evaluator never looks inside one.
\<close>

datatype Expr =
    NullExpr
  | IdentifierExpr string
  | NumberExpr "32 word"
  | StringExpr string
  | UnaryExpr
  | BinaryExpr string Expr Expr

definition get_int :: "EvalValue \<Rightarrow> error + 32 word" where
  "get_int v = (case v of IntValue i \<Rightarrow> Inr i
                | StringValue s \<Rightarrow> Inl (RuntimeError ''Expected integer value''))"

definition digit_char :: "nat \<Rightarrow> char" where
  "digit_char d = char_of (48 + d)"

function nat_to_string :: "nat \<Rightarrow> string" where
  "nat_to_string n =
     (if n < 10 then [digit_char n] else nat_to_string (n div 10) @ [digit_char (n mod 10)])"
  by pat_completeness auto
termination
  by (relation "measure id") auto

text \<open>\<^verbatim>\<open>std::to_string(int)\<close>: decimal digits, a minus sign first for a negative value.\<close>

definition to_string :: "32 word \<Rightarrow> string" where
  "to_string i = (if sint i < 0 then CHR ''-'' # nat_to_string (nat (- sint i))
                  else nat_to_string (nat (sint i)))"

definition get_string :: "EvalValue \<Rightarrow> error + string" where
  "get_string v = (case v of StringValue s \<Rightarrow> Inr s | IntValue i \<Rightarrow> Inr (to_string i))"

fun find_column_index :: "string \<Rightarrow> string list \<Rightarrow> nat \<Rightarrow> error + nat" where
  "find_column_index name [] i = Inl (RuntimeError (''Column not found: '' @ name))"
| "find_column_index name (c # cs) i =
     (if c = name then Inr i else find_column_index name cs (Suc i))"

text \<open>
  Arithmetic on \<^verbatim>\<open>int\<close>: a result outside the 32-bit range is undefined behaviour in
  C++ (for the division, the single case is the least integer divided by -1). The
  division truncates towards zero.
\<close>

definition in_int_range :: "int \<Rightarrow> bool" where
  "in_int_range x = (- (2 ^ 31) \<le> x \<and> x < 2 ^ 31)"

definition int_result :: "int \<Rightarrow> error + EvalValue" where
  "int_result x = (if in_int_range x then Inr (IntValue (word_of_int x)) else Inl UndefinedBehaviour)"

definition trunc_div :: "int \<Rightarrow> int \<Rightarrow> int" where
  "trunc_div a b =
     (if (a < 0) = (b < 0) then \<bar>a\<bar> div \<bar>b\<bar> else - (\<bar>a\<bar> div \<bar>b\<bar>))"

definition bool_value :: "bool \<Rightarrow> EvalValue" where
  "bool_value b = IntValue (if b then 1 else 0)"

text \<open>The comparison operators share one shape; \<open>ci\<close> compares integers, \<open>cs\<close> strings.\<close>

definition compare_values ::
  "(int \<Rightarrow> int \<Rightarrow> bool) \<Rightarrow> (string \<Rightarrow> string \<Rightarrow> bool) \<Rightarrow> EvalValue \<Rightarrow> EvalValue \<Rightarrow> EvalValue" where
  "compare_values ci cs l r =
     (case (l, r) of
        (IntValue a, IntValue b) \<Rightarrow> bool_value (ci (sint a) (sint b))
      | (StringValue a, StringValue b) \<Rightarrow> bool_value (cs a b)
      | _ \<Rightarrow> IntValue 0)"

definition binary_op :: "string \<Rightarrow> EvalValue \<Rightarrow> EvalValue \<Rightarrow> error + EvalValue" where
  "binary_op op left_val right_val =
     (if op = ''+'' then
        (case (left_val, right_val) of
           (IntValue a, IntValue b) \<Rightarrow> int_result (sint a + sint b)
         | _ \<Rightarrow> andThen (get_string left_val) (\<lambda>l.
                andThen (get_string right_val) (\<lambda>r. Inr (StringValue (l @ r)))))
      else if op = ''-'' then
        andThen (get_int left_val) (\<lambda>l. andThen (get_int right_val) (\<lambda>r.
          int_result (sint l - sint r)))
      else if op = ''*'' then
        andThen (get_int left_val) (\<lambda>l. andThen (get_int right_val) (\<lambda>r.
          int_result (sint l * sint r)))
      else if op = ''/'' then
        andThen (get_int right_val) (\<lambda>right.
          if right = 0 then Inl (RuntimeError ''Division by zero'')
          else andThen (get_int left_val) (\<lambda>l. int_result (trunc_div (sint l) (sint right))))
      else if op = ''='' \<or> op = ''=='' then Inr (compare_values (=) (=) left_val right_val)
      else if op = ''<'' then Inr (compare_values (<) (<) left_val right_val)
      else if op = ''>'' then Inr (compare_values (\<lambda>a b. b < a) (\<lambda>a b. b < a) left_val right_val)
      else if op = ''<='' then Inr (compare_values (\<le>) (\<le>) left_val right_val)
      else if op = ''>='' then Inr (compare_values (\<lambda>a b. b \<le> a) (\<lambda>a b. b \<le> a) left_val right_val)
      else if op = ''AND'' \<or> op = ''&&'' then
        andThen (get_int left_val) (\<lambda>l. andThen (get_int right_val) (\<lambda>r.
          Inr (bool_value (l \<noteq> 0 \<and> r \<noteq> 0))))
      else if op = ''OR'' \<or> op = ''||'' then
        andThen (get_int left_val) (\<lambda>l. andThen (get_int right_val) (\<lambda>r.
          Inr (bool_value (l \<noteq> 0 \<or> r \<noteq> 0))))
      else Inl (RuntimeError (''Unknown binary operator: '' @ op)))"

fun evaluate_expr :: "Expr \<Rightarrow> Tuple \<Rightarrow> string list \<Rightarrow> error + EvalValue" where
  "evaluate_expr NullExpr tuple column_names = Inl (RuntimeError ''Null expression'')"
| "evaluate_expr (IdentifierExpr name) tuple column_names =
     andThen (find_column_index name column_names 0) (\<lambda>idx.
       if idx \<ge> length tuple
       then Inl (RuntimeError (''Column index out of bounds: '' @ name))
       else Inr (tuple ! idx))"
| "evaluate_expr (NumberExpr v) tuple column_names = Inr (IntValue v)"
| "evaluate_expr (StringExpr s) tuple column_names = Inr (StringValue s)"
| "evaluate_expr (BinaryExpr op l r) tuple column_names =
     andThen (evaluate_expr l tuple column_names) (\<lambda>left_val.
     andThen (evaluate_expr r tuple column_names) (\<lambda>right_val.
       binary_op op left_val right_val))"
| "evaluate_expr UnaryExpr tuple column_names = Inl (RuntimeError ''Unsupported expression kind'')"

lemma andThen_cong [fundef_cong]:
  "m = m' \<Longrightarrow> (\<And>x. m' = Inr x \<Longrightarrow> f x = f' x) \<Longrightarrow> andThen m f = andThen m' f'"
  by (cases m') (simp_all add: andThen_def)

section \<open>Pages (src/storage/page.cpp)\<close>

type_synonym u8 = "8 word"
type_synonym u16 = "16 word"
type_synonym u32 = "32 word"

text \<open>
  \<^verbatim>\<open>struct Key { const uint8_t* data; uint16_t size; }\<close> and \<^verbatim>\<open>using Value = Key\<close>
  (include/storage/btree.hpp): the bytes \<open>data[0..size)\<close>, as a list whose length is the
  size.
\<close>

type_synonym Key = "u8 list"
type_synonym Value = "u8 list"

definition key_size :: "u8 list \<Rightarrow> u16" where
  "key_size k = of_nat (length k)"

text \<open>
  A \<^verbatim>\<open>Key\<close> does not own its bytes. Where the code hands on a \<^verbatim>\<open>Key\<close> whose pointer is to
  a buffer that no longer exists (an array local to a function that has returned), the
  size is all that is left of it: \<open>DeadKey\<close>. Reading the bytes of such a key is a read
  of storage whose lifetime has ended.
\<close>

datatype KeyRef = LiveKey Key | DeadKey u16

fun key_ref_size :: "KeyRef \<Rightarrow> u16" where
  "key_ref_size (LiveKey k) = key_size k"
| "key_ref_size (DeadKey n) = n"

fun key_ref_data :: "KeyRef \<Rightarrow> error + Key" where
  "key_ref_data (LiveKey k) = Inr k"
| "key_ref_data (DeadKey n) = Inl UndefinedBehaviour"

text \<open>
  Modelled from the spec: the constants of common/constants.hpp and the sizes of the
  structs of storage/page.hpp and storage/record.hpp, which are not among the sources.
  PAGE_SIZE is 8,192 bytes and INVALID_PAGE_ID is all-ones (spec, section 3); the page
  header is the spec's field list with its reserved area (32 bytes, the figure the
  repository's B+ tree test also states); a leaf record header is the packed pair
  key_size (u16), value_size (u16). \<^verbatim>\<open>sizeof(InternalEntry)\<close> is 6: the struct is declared,
  packed, in include/storage/btree.hpp.
\<close>

definition PAGE_SIZE :: nat where
  "PAGE_SIZE = 8192"

definition SIZEOF_PageHeader :: nat where
  "SIZEOF_PageHeader = 32"

definition SIZEOF_RecordHeader :: nat where
  "SIZEOF_RecordHeader = 4"

definition SIZEOF_InternalEntry :: nat where
  "SIZEOF_InternalEntry = 6"

definition INVALID_PAGE_ID :: u32 where
  "INVALID_PAGE_ID = 0xFFFFFFFF"

definition UINT32_MAX :: u32 where
  "UINT32_MAX = 0xFFFFFFFF"

text \<open>
  Modelled from the spec: the enumerations of storage/page.hpp, in the order the spec
  lists their tags; the first tag of each is the one a zero byte reads as.
\<close>

datatype PageType = META | INDEX | DATA

datatype PageLevel = LEAF | INTERNAL

text \<open>
  A page is a buffer of PAGE_SIZE bytes that the code reads through three typed views:
  the \<^verbatim>\<open>PageHeader\<close> at its start, the slot directory (an array of \<^verbatim>\<open>uint16_t\<close> from
  \<open>free_end\<close> to the end of the page), and the records that the slots point to. The
  model keeps the three views as they are used:
  \<^item> the header fields; \<open>reserved\<close> is the \<^verbatim>\<open>uint32_t\<close> read from \<^verbatim>\<open>reserved[0..4)\<close>,
    the leftmost child of an INTERNAL page;
  \<^item> \<open>slots\<close>, the \<^verbatim>\<open>uint16_t\<close> array that starts at byte \<open>free_end\<close>: element \<open>i\<close> is
    \<^verbatim>\<open>*slot_ptr(page, i)\<close>;
  \<^item> \<open>cells\<close>, the record that starts at a byte offset: a leaf record
    (\<^verbatim>\<open>RecordHeader\<close>, key, value) or an internal entry (\<^verbatim>\<open>InternalEntry\<close>: key_size,
    child_page, key).
  A read that the views do not cover (a slot index past the end of the buffer, an
  offset where no record of the page's layout starts) has no value in the model: it is
  the outcome \<open>UndefinedBehaviour\<close>.
\<close>

datatype cell =
    LeafRecord Key Value
  | InternalEntry Key u32

record Page =
  page_id :: u32
  parent_page_id :: u32
  page_type :: PageType
  page_level :: PageLevel
  cell_count :: u16
  free_start :: u16
  free_end :: u16
  ph_root_page :: u32
  reserved :: u32
  slots :: "u16 list"
  cells :: "u16 \<Rightarrow> cell option"

definition init_page :: "u32 \<Rightarrow> PageType \<Rightarrow> PageLevel \<Rightarrow> Page" where
  "init_page pid ptype plevel =
     \<lparr> page_id = pid, parent_page_id = 0, page_type = ptype, page_level = plevel,
       cell_count = 0, free_start = of_nat SIZEOF_PageHeader, free_end = of_nat PAGE_SIZE,
       ph_root_page = 0, reserved = 0, slots = [], cells = (\<lambda>off. None) \<rparr>"

text \<open>\<^verbatim>\<open>*slot_ptr(page, index)\<close>: the \<^verbatim>\<open>uint16_t\<close> at byte \<open>free_end + 2 * index\<close>.\<close>

definition slot_at :: "Page \<Rightarrow> nat \<Rightarrow> error + u16" where
  "slot_at page i =
     (if i < length (slots page) then Inr (slots page ! i) else Inl UndefinedBehaviour)"

text \<open>
  \<^verbatim>\<open>insert_slot\<close>. After \<^verbatim>\<open>free_end -= 2\<close> the directory starts one element earlier: new
  slot \<open>i\<close> and old slot \<open>i - 1\<close> are the same two bytes. With \<open>a\<close> the array from the
  new \<open>free_end\<close> (its first element is whatever the two bytes below the old directory
  held; every path overwrites it before reading it), the first loop is
  \<open>a[i] = a[i + 1]\<close> for \<open>i < index\<close>, and the second, \<open>a[i] = a[i]\<close> for \<open>i\<close> from
  \<open>current_count\<close> down to \<open>index + 1\<close>.
\<close>

definition insert_slot :: "Page \<Rightarrow> nat \<Rightarrow> u16 \<Rightarrow> error + Page" where
  "insert_slot page index record_offset =
     (let current_count = unat (cell_count page) in
      if index > length (slots page) \<or> current_count > length (slots page)
      then Inl UndefinedBehaviour
      else
        let a0 = 0 # slots page;
            a1 = fold (\<lambda>i a. a[i := a ! (i + 1)]) [0..<index] a0;
            a2 = fold (\<lambda>i a. a[i := a ! i]) (rev [index + 1..<current_count + 1]) a1;
            a3 = a2[index := record_offset];
            page' = page\<lparr> free_end := free_end page - 2, slots := a3,
                           cell_count := cell_count page + 1 \<rparr>
        in if \<not> free_start page' \<le> free_end page'
           then Inl (AssertionFailed ''header->free_start <= header->free_end'')
           else if \<not> unat (cell_count page') * 2 \<le> PAGE_SIZE
           then Inl (AssertionFailed ''header->cell_count * sizeof(uint16_t) <= PAGE_SIZE'')
           else Inr page')"

text \<open>
  \<^verbatim>\<open>remove_slot\<close>. After \<^verbatim>\<open>free_end += 2\<close> the directory starts one element later: new
  slot \<open>i\<close> and old slot \<open>i + 1\<close> are the same two bytes. With \<open>a\<close> the array from the
  old \<open>free_end\<close>, the first loop is \<open>a[i + 1] = a[i]\<close> for \<open>i\<close> from 0 up to
  \<open>index - 1\<close>, the second \<open>a[i] = a[i]\<close> for \<open>index < i < current_count\<close>, and the new
  directory is \<open>a\<close> without its first element.
\<close>

definition remove_slot :: "Page \<Rightarrow> nat \<Rightarrow> error + Page" where
  "remove_slot page index =
     (let current_count = unat (cell_count page) in
      if int index > int current_count - 1
      then Inl (RuntimeError ''Could not remove an invalid slot'')
      else if current_count > length (slots page)
      then Inl UndefinedBehaviour
      else
        let a0 = slots page;
            a1 = fold (\<lambda>i a. a[i + 1 := a ! i]) [0..<index] a0;
            a2 = fold (\<lambda>i a. a[i := a ! i]) [index + 1..<current_count] a1;
            page' = page\<lparr> free_end := free_end page + 2, slots := tl a2,
                           cell_count := cell_count page - 1 \<rparr>
        in if \<not> free_start page' \<le> free_end page'
           then Inl (AssertionFailed ''header->free_start <= header->free_end'')
           else if \<not> unat (cell_count page') * 2 \<le> PAGE_SIZE
           then Inl (AssertionFailed ''header->cell_count * sizeof(uint16_t) <= PAGE_SIZE'')
           else Inr page')"

section \<open>Records and keys (storage/record.hpp, not among the sources)\<close>

text \<open>
  Modelled from the spec: \<^verbatim>\<open>compare_keys\<close>, \<^verbatim>\<open>record_size\<close>, \<^verbatim>\<open>can_insert\<close>,
  \<^verbatim>\<open>write_raw_record\<close>, \<^verbatim>\<open>slot_key\<close>, \<^verbatim>\<open>slot_value\<close>, \<^verbatim>\<open>search_record\<close> and
  \<^verbatim>\<open>page_insert\<close> are declared in headers that are not among the sources; each follows
  the spec's section 4.2.

  Key comparison is lexicographic over raw bytes; a proper prefix is smaller. The
  result is negative, zero or positive.
\<close>

fun compare_keys :: "Key \<Rightarrow> Key \<Rightarrow> int" where
  "compare_keys [] [] = 0"
| "compare_keys [] (y # ys) = - 1"
| "compare_keys (x # xs) [] = 1"
| "compare_keys (x # xs) (y # ys) =
     (if x < y then - 1 else if y < x then 1 else compare_keys xs ys)"

text \<open>Modelled from the spec: the size of a leaf record, header and both byte strings.\<close>

definition record_size :: "u16 \<Rightarrow> u16 \<Rightarrow> u16" where
  "record_size ksize vsize = of_nat SIZEOF_RecordHeader + ksize + vsize"

definition cell_size :: "cell \<Rightarrow> u16" where
  "cell_size c =
     (case c of
        LeafRecord k v \<Rightarrow> record_size (key_size k) (key_size v)
      | InternalEntry k child \<Rightarrow> of_nat SIZEOF_InternalEntry + key_size k)"

text \<open>
  Modelled from the spec: \<^verbatim>\<open>can_insert\<close> returns whether
  \<open>free_end - free_start \<ge> record_size + sizeof(slot)\<close>.
\<close>

definition can_insert :: "Page \<Rightarrow> u16 \<Rightarrow> bool" where
  "can_insert page rec_size =
     (int (unat (free_end page)) - int (unat (free_start page)) \<ge> int (unat rec_size) + 2)"

text \<open>
  Modelled from the spec: \<^verbatim>\<open>write_raw_record\<close> appends \<open>sz\<close> bytes at \<open>free_start\<close>,
  advances \<open>free_start\<close> and returns the offset where the record begins. The bytes are
  those of one record. Bytes written past \<open>free_end\<close> would overwrite the slot
  directory or leave the buffer.
\<close>

definition write_raw_record :: "Page \<Rightarrow> cell \<Rightarrow> u16 \<Rightarrow> error + (u16 \<times> Page)" where
  "write_raw_record page raw sz =
     (if unat (free_start page) + unat sz > unat (free_end page)
      then Inl UndefinedBehaviour
      else Inr (free_start page,
                page\<lparr> cells := (cells page)(free_start page := Some raw),
                      free_start := free_start page + sz \<rparr>))"

text \<open>The record a slot points to, read through the layout of the page's level.\<close>

definition leaf_record_at :: "Page \<Rightarrow> nat \<Rightarrow> error + (Key \<times> Value)" where
  "leaf_record_at page i =
     andThen (slot_at page i) (\<lambda>offset.
       case cells page offset of
         Some (LeafRecord k v) \<Rightarrow> Inr (k, v)
       | _ \<Rightarrow> Inl UndefinedBehaviour)"

definition internal_entry_at :: "Page \<Rightarrow> nat \<Rightarrow> error + (Key \<times> u32)" where
  "internal_entry_at page i =
     andThen (slot_at page i) (\<lambda>offset.
       case cells page offset of
         Some (InternalEntry k child) \<Rightarrow> Inr (k, child)
       | _ \<Rightarrow> Inl UndefinedBehaviour)"

text \<open>
  Modelled from the spec: \<^verbatim>\<open>slot_key\<close> returns the key bytes of slot \<open>i\<close>, interpreting
  the LEAF or the INTERNAL layout; \<^verbatim>\<open>slot_value\<close> is for LEAF pages only.
\<close>

definition slot_key :: "Page \<Rightarrow> nat \<Rightarrow> error + Key" where
  "slot_key page i =
     (case page_level page of
        LEAF \<Rightarrow> andThen (leaf_record_at page i) (\<lambda>(k, v). Inr k)
      | INTERNAL \<Rightarrow> andThen (internal_entry_at page i) (\<lambda>(k, child). Inr k))"

definition slot_value :: "Page \<Rightarrow> nat \<Rightarrow> error + Value" where
  "slot_value page i = andThen (leaf_record_at page i) (\<lambda>(k, v). Inr v)"

text \<open>
  Modelled from the spec: \<^verbatim>\<open>search_record\<close> binary-searches the slots and returns
  \<open>{found, index}\<close>: on a hit the index of the match, on a miss the insertion position,
  the first slot whose key is greater than the search key.
\<close>

record BSearchResult =
  found :: bool
  index :: nat

function search_loop :: "Page \<Rightarrow> Key \<Rightarrow> int \<Rightarrow> int \<Rightarrow> error + BSearchResult" where
  "search_loop page key left right =
     (if left \<le> right then
        (let mid = (left + right) div 2 in
         case slot_key page (nat mid) of
           Inl e \<Rightarrow> Inl e
         | Inr mid_key \<Rightarrow>
             (let cmp = compare_keys key mid_key in
              if cmp = 0 then Inr \<lparr> found = True, index = nat mid \<rparr>
              else if cmp < 0 then search_loop page key left (mid - 1)
              else search_loop page key (mid + 1) right))
      else Inr \<lparr> found = False, index = nat left \<rparr>)"
  by pat_completeness auto
termination
  by (relation "measure (\<lambda>(page, key, left, right). nat (right - left + 1))") auto

definition search_record :: "Page \<Rightarrow> Key \<Rightarrow> error + BSearchResult" where
  "search_record page key = search_loop page key 0 (int (unat (cell_count page)) - 1)"

text \<open>
  \<^verbatim>\<open>search_record(page, key.data, key.size)\<close> on a \<^verbatim>\<open>Key\<close> that may be dead: the search
  reads the key's bytes at its first comparison, which a page without slots never
  reaches.
\<close>

definition search_record_ref :: "Page \<Rightarrow> KeyRef \<Rightarrow> error + BSearchResult" where
  "search_record_ref page key =
     (case key of
        LiveKey k \<Rightarrow> search_record page k
      | DeadKey n \<Rightarrow>
          if cell_count page = 0 then Inr \<lparr> found = False, index = 0 \<rparr>
          else Inl UndefinedBehaviour)"

text \<open>
  Modelled from the spec: \<^verbatim>\<open>page_insert\<close>, for LEAF pages, binary-searches for the
  insertion position, writes a leaf record, and inserts a slot at that index.
\<close>

definition page_insert :: "Page \<Rightarrow> Key \<Rightarrow> Value \<Rightarrow> error + Page" where
  "page_insert page key val =
     andThen (search_record page key) (\<lambda>sr.
     andThen (write_raw_record page (LeafRecord key val) (record_size (key_size key) (key_size val)))
       (\<lambda>(offset, page1). insert_slot page1 (index sr) offset))"

section \<open>The table handle and the disk (src/storage/disk_manager.cpp)\<close>

text \<open>
  \<^verbatim>\<open>DiskManager::read_page\<close> and \<^verbatim>\<open>write_page\<close> move one page between the caller's buffer
  and the file, by page id; a page past the end of the file reads as zero bytes. The
  file is a total map from page ids to pages. Input and output errors of the file
  system are outside the model.

  Modelled from the spec: \<^verbatim>\<open>TableHandle\<close> (storage/table_handle.hpp is not among the
  sources) bundles the disk manager with the cached root page id and the next free
  page id.
\<close>

record TableHandle =
  dm :: "u32 \<Rightarrow> Page"
  root_page :: u32
  next_free_page_id :: u32

definition read_page :: "TableHandle \<Rightarrow> u32 \<Rightarrow> Page" where
  "read_page th pid = dm th pid"

definition write_page :: "TableHandle \<Rightarrow> u32 \<Rightarrow> Page \<Rightarrow> TableHandle" where
  "write_page th pid page = th\<lparr> dm := (dm th)(pid := page) \<rparr>"

text \<open>
  A page of zero bytes, as \<^verbatim>\<open>read_page\<close> returns for a page that was never written:
  every header field is zero, the directory view starts at byte 0.
\<close>

definition zero_page :: Page where
  "zero_page =
     \<lparr> page_id = 0, parent_page_id = 0, page_type = META, page_level = LEAF,
       cell_count = 0, free_start = 0, free_end = 0, ph_root_page = 0, reserved = 0,
       slots = replicate (PAGE_SIZE div 2) 0, cells = (\<lambda>off. None) \<rparr>"

text \<open>
  Modelled from the spec: \<^verbatim>\<open>allocate_page\<close> returns the next free page id and bumps it.
\<close>

definition allocate_page :: "TableHandle \<Rightarrow> u32 \<times> TableHandle" where
  "allocate_page th = (next_free_page_id th, th\<lparr> next_free_page_id := next_free_page_id th + 1 \<rparr>)"

text \<open>
  Modelled from the spec: a fresh table, after \<^verbatim>\<open>create_table\<close> and \<^verbatim>\<open>open_table\<close>. Page 0
  is the meta page with \<open>root_page = 0\<close>; the handle's root is 0 (no root yet) and the
  tree pages start at page 1.
\<close>

definition fresh_table :: TableHandle where
  "fresh_table =
     \<lparr> dm = (\<lambda>pid. zero_page)(0 := init_page 0 META LEAF), root_page = 0,
       next_free_page_id = 1 \<rparr>"

section \<open>Internal pages (src/storage/btree/internal.cpp)\<close>

text \<open>
  The binary search of \<^verbatim>\<open>internal_find_child\<close>, on \<^verbatim>\<open>int\<close>: \<open>left\<close>, \<open>right\<close>, \<open>pos\<close>.
\<close>

function find_pos :: "Page \<Rightarrow> Key \<Rightarrow> int \<Rightarrow> int \<Rightarrow> int \<Rightarrow> error + int" where
  "find_pos page key left right pos =
     (if left \<le> right then
        (let mid = (right + left) div 2 in
         case slot_key page (nat mid) of
           Inl e \<Rightarrow> Inl e
         | Inr mid_key \<Rightarrow>
             if compare_keys key mid_key < 0
             then find_pos page key left (mid - 1) mid
             else find_pos page key (mid + 1) right pos)
      else Inr pos)"
  by pat_completeness auto
termination
  by (relation "measure (\<lambda>(page, key, left, right, pos). nat (right - left + 1))") auto

definition internal_find_child :: "Page \<Rightarrow> Key \<Rightarrow> error + u32" where
  "internal_find_child page key =
     (if page_level page \<noteq> INTERNAL
      then Inl (AssertionFailed ''ph->page_level == PageLevel::INTERNAL'')
      else
        let count = int (unat (cell_count page)) in
        andThen (find_pos page key 0 (count - 1) count) (\<lambda>pos.
          if pos = 0 then
            (let leftmost_child = reserved page in
             if leftmost_child \<noteq> 0 \<and> leftmost_child < 1000000 \<and> leftmost_child \<noteq> INVALID_PAGE_ID
             then Inr leftmost_child
             else if parent_page_id page = 0 \<and> ph_root_page page \<noteq> 0
                     \<and> ph_root_page page \<noteq> page_id page \<and> ph_root_page page < 1000000
             then Inr (ph_root_page page)
             else if cell_count page > 0 then
               andThen (internal_entry_at page 0) (\<lambda>(k, child).
                 if child \<noteq> 0 \<and> child < 1000000 then Inr child
                 else Inl (AssertionFailed ''No valid leftmost child found''))
             else Inl (AssertionFailed ''No valid leftmost child found''))
          else if pos = count then
            (if cell_count page = 0 then Inr 0
             else andThen (internal_entry_at page (unat (cell_count page) - 1)) (\<lambda>(k, child).
                    Inr child))
          else if pos > 0 \<and> pos \<le> count then
            (if pos - 1 < count then
               andThen (internal_entry_at page (nat (pos - 1))) (\<lambda>(k, child).
                 if child = 0 \<or> child \<ge> 1000000
                 then Inl (AssertionFailed ''Invalid child page ID'')
                 else Inr child)
             else Inl (AssertionFailed ''Invalid position in internal_find_child''))
          else Inl (AssertionFailed ''Invalid position in internal_find_child'')))"

definition write_internal_entry :: "Page \<Rightarrow> KeyRef \<Rightarrow> u32 \<Rightarrow> error + (u16 \<times> Page)" where
  "write_internal_entry page key child =
     (if page_level page \<noteq> INTERNAL
      then Inl (AssertionFailed ''ph->page_level== PageLevel::INTERNAL'')
      else
        let sz = of_nat SIZEOF_InternalEntry + key_ref_size key in
        if unat (free_start page) + unat sz > unat (free_end page)
        then Inl UndefinedBehaviour
        else
          andThen (key_ref_data key) (\<lambda>k.
            Inr (free_start page,
                 page\<lparr> cells := (cells page)(free_start page := Some (InternalEntry k child)),
                       free_start := free_start page + sz \<rparr>)))"

definition insert_internal_no_split :: "Page \<Rightarrow> KeyRef \<Rightarrow> u32 \<Rightarrow> error + (bool \<times> Page)" where
  "insert_internal_no_split page key child =
     (if page_level page \<noteq> INTERNAL
      then Inl (AssertionFailed ''ph->page_level== PageLevel::INTERNAL'')
      else
        let rec_size = of_nat SIZEOF_InternalEntry + key_ref_size key in
        if \<not> can_insert page rec_size then Inr (False, page)
        else
          andThen (search_record_ref page key) (\<lambda>sr.
            if found sr then Inr (False, page)
            else
              andThen (write_internal_entry page key child) (\<lambda>(offset, page1).
              andThen (insert_slot page1 (index sr) offset) (\<lambda>page2.
                Inr (True, page2)))))"

text \<open>
  The loop that both split functions run on the page they split: \<open>num_to_remove\<close>
  rounds, each removing the last slot while its index is at least \<open>split_index\<close>.
  \<open>last_index\<close> is a \<^verbatim>\<open>uint16_t\<close>: on an empty page it wraps to 65535.
\<close>

fun remove_last_slots :: "nat \<Rightarrow> nat \<Rightarrow> Page \<Rightarrow> error + Page" where
  "remove_last_slots 0 split_index page = Inr page"
| "remove_last_slots (Suc rounds) split_index page =
     (let last_index = unat (cell_count page - 1) in
      if last_index \<ge> split_index
      then andThen (remove_slot page last_index) (remove_last_slots rounds split_index)
      else Inr page)"

text \<open>
  \<^verbatim>\<open>struct SplitLeafResult { uint32_t new_page; Key seperator_key; }\<close>, also the
  \<^verbatim>\<open>SplitInternalResult\<close> (include/storage/btree.hpp). Both split functions copy the
  separator into \<^verbatim>\<open>sep_buf\<close>, an array of their own frame, and return a \<^verbatim>\<open>Key\<close> that
  points to it: at the caller the key is dead, its size is the separator's.
\<close>

record SplitLeafResult =
  new_page :: u32
  seperator_key :: KeyRef

text \<open>
  The copy loop of \<^verbatim>\<open>split_internal_page\<close> over the slots \<open>is\<close>: the entry is written to
  the new page, and the child page it names is read, given the new parent and written
  back.
\<close>

fun copy_internal_entries ::
  "Page \<Rightarrow> u32 \<Rightarrow> nat list \<Rightarrow> TableHandle \<times> Page \<Rightarrow> error + (TableHandle \<times> Page)" where
  "copy_internal_entries page new_pid [] (th, new_pg) = Inr (th, new_pg)"
| "copy_internal_entries page new_pid (i # is) (th, new_pg) =
     andThen (internal_entry_at page i) (\<lambda>(k, child_page_id).
     andThen (write_raw_record new_pg (InternalEntry k child_page_id)
                (of_nat SIZEOF_InternalEntry + key_size k)) (\<lambda>(new_off, new_pg1).
     andThen (insert_slot new_pg1 (unat (cell_count new_pg1)) new_off) (\<lambda>new_pg2.
       let child_page = read_page th child_page_id;
           th1 = write_page th child_page_id (child_page\<lparr> parent_page_id := new_pid \<rparr>)
       in copy_internal_entries page new_pid is (th1, new_pg2))))"

definition split_internal_page ::
  "TableHandle \<Rightarrow> Page \<Rightarrow> error + (SplitLeafResult \<times> TableHandle \<times> Page)" where
  "split_internal_page th page =
     (if page_level page \<noteq> INTERNAL
      then Inl (AssertionFailed ''ph->page_level == PageLevel::INTERNAL'')
      else
        let (new_pid, th1) = allocate_page th;
            new_pg = init_page new_pid INDEX INTERNAL;
            total = unat (cell_count page)
        in
        if total < 2
        then Inl (AssertionFailed ''Cannot split internal page with less than 2 elements'')
        else
          let mid = total div 2 in
          andThen (slot_key page mid) (\<lambda>sep.
            if unat (key_size sep) > 256 then Inl (AssertionFailed ''Key too large'')
            else
              andThen (if mid < total
                       then andThen (internal_entry_at page mid) (\<lambda>(k, child). Inr child)
                       else Inr 0) (\<lambda>new_leftmost_child.
              andThen (copy_internal_entries page new_pid [mid + 1..<total] (th1, new_pg))
                (\<lambda>(th2, new_pg1).
                  let new_pg2 = (if new_leftmost_child \<noteq> 0
                                 then new_pg1\<lparr> reserved := new_leftmost_child \<rparr>
                                 else new_pg1)
                  in
                  andThen (remove_last_slots (total - mid) mid page) (\<lambda>page1.
                    let new_pg3 = new_pg2\<lparr> parent_page_id := parent_page_id page1 \<rparr>;
                        th3 = write_page th2 new_pid new_pg3
                    in Inr (\<lparr> new_page = new_pid, seperator_key = DeadKey (key_size sep) \<rparr>,
                            th3, page1))))))"

definition create_new_root :: "TableHandle \<Rightarrow> u32 \<Rightarrow> KeyRef \<Rightarrow> u32 \<Rightarrow> error + TableHandle" where
  "create_new_root th left key right =
     (let (new_root_id, th1) = allocate_page th;
          root = (init_page new_root_id INDEX INTERNAL)\<lparr> reserved := left, ph_root_page := left \<rparr>
      in
      andThen (write_internal_entry root key right) (\<lambda>(offset, root1).
      andThen (insert_slot root1 0 offset) (\<lambda>root2.
        let th2 = th1\<lparr> root_page := new_root_id \<rparr>;
            meta = read_page th2 0;
            th3 = write_page th2 0 (meta\<lparr> ph_root_page := new_root_id \<rparr>);
            th4 = write_page th3 new_root_id root2;
            left_page = read_page th4 left
        in
        if page_id left_page \<noteq> left then Inl (AssertionFailed ''Left page ID mismatch'')
        else
          let th5 = write_page th4 left (left_page\<lparr> parent_page_id := new_root_id \<rparr>);
              right_page = read_page th5 right;
              th6 = write_page th5 right (right_page\<lparr> parent_page_id := new_root_id \<rparr>)
          in Inr th6)))"

text \<open>
  \<^verbatim>\<open>insert_into_parent\<close> calls itself on the parent after a split of the parent, with
  no bound on the number of levels it climbs: a call that does not return is the value
  \<open>None\<close>. The key of that inner call is the separator that \<^verbatim>\<open>split_internal_page\<close>
  returned, a dead key.
\<close>

partial_function (option) insert_into_parent ::
  "TableHandle \<Rightarrow> u32 \<Rightarrow> KeyRef \<Rightarrow> u32 \<Rightarrow> (error + TableHandle) option" where
  "insert_into_parent th left key right =
     (let left_page = read_page th left in
      if parent_page_id left_page = 0 then Some (create_new_root th left key right)
      else
        let parent_pid = parent_page_id left_page in
        if parent_pid = 0 \<or> parent_pid = INVALID_PAGE_ID
        then Some (create_new_root th left key right)
        else
          let parent = read_page th parent_pid in
          if page_level parent \<noteq> INTERNAL then Some (create_new_root th left key right)
          else
            (case search_record_ref parent key of
               Inl e \<Rightarrow> Some (Inl e)
             | Inr sr \<Rightarrow>
                 if found sr then Some (create_new_root th left key right)
                 else
                   (let parent1 = (if index sr = 0 then parent\<lparr> reserved := left \<rparr> else parent) in
                    (case insert_internal_no_split parent1 key right of
                       Inl e \<Rightarrow> Some (Inl e)
                     | Inr (ok, parent2) \<Rightarrow>
                         if ok then Some (Inr (write_page th parent_pid parent2))
                         else
                           (case split_internal_page th parent2 of
                              Inl e \<Rightarrow> Some (Inl e)
                            | Inr (split, th1, parent3) \<Rightarrow>
                                insert_into_parent (write_page th1 parent_pid parent3) parent_pid
                                  (seperator_key split) (new_page split))))))"

section \<open>Leaf pages (src/storage/btree/leaf.cpp)\<close>

text \<open>
  The loop of \<^verbatim>\<open>find_leaf_page\<close>, with its page id and depth. It returns the page id (or
  the sentinel) and the buffer \<open>out_page\<close>, which holds the last page read.
\<close>

partial_function (option) find_leaf_loop ::
  "TableHandle \<Rightarrow> Key \<Rightarrow> u32 \<Rightarrow> int \<Rightarrow> (error + (u32 \<times> Page)) option" where
  "find_leaf_loop th key pid depth =
     (let out_page = read_page th pid in
      if page_level out_page = LEAF then Some (Inr (pid, out_page))
      else
        (case internal_find_child out_page key of
           Inl e \<Rightarrow> Some (Inl e)
         | Inr next_page_id \<Rightarrow>
             if next_page_id = 0 \<or> next_page_id \<ge> 1000000 then Some (Inr (UINT32_MAX, out_page))
             else if depth + 1 > 100 then Some (Inr (UINT32_MAX, out_page))
             else find_leaf_loop th key next_page_id (depth + 1)))"

definition find_leaf_page :: "TableHandle \<Rightarrow> Key \<Rightarrow> (error + (u32 \<times> Page)) option" where
  "find_leaf_page th key = find_leaf_loop th key (root_page th) 0"

definition header_corrupted :: "Page \<Rightarrow> bool" where
  "header_corrupted page =
     (unat (free_start page) < SIZEOF_PageHeader \<or> unat (free_start page) \<ge> PAGE_SIZE
      \<or> unat (free_end page) < SIZEOF_PageHeader \<or> unat (free_end page) > PAGE_SIZE
      \<or> free_start page > free_end page)"

definition btree_insert_leaf_no_split ::
  "TableHandle \<Rightarrow> u32 \<Rightarrow> Page \<Rightarrow> Key \<Rightarrow> Value \<Rightarrow> error + (bool \<times> TableHandle \<times> Page)" where
  "btree_insert_leaf_no_split th pid page key val =
     (let rec_size = record_size (key_size key) (key_size val) in
      if \<not> can_insert page rec_size then Inr (False, th, page)
      else
        andThen (page_insert page key val) (\<lambda>page1.
          if header_corrupted page1 then Inl (AssertionFailed ''Corrupted page header'')
          else Inr (True, write_page th pid page1, page1)))"

text \<open>The copy loop of \<^verbatim>\<open>split_leaf_page\<close> over the slots \<open>is\<close>.\<close>

fun copy_leaf_records :: "Page \<Rightarrow> nat list \<Rightarrow> Page \<Rightarrow> error + Page" where
  "copy_leaf_records page [] new_pg = Inr new_pg"
| "copy_leaf_records page (i # is) new_pg =
     andThen (leaf_record_at page i) (\<lambda>(k, v).
     andThen (write_raw_record new_pg (LeafRecord k v) (record_size (key_size k) (key_size v)))
       (\<lambda>(new_offset, new_pg1).
     andThen (insert_slot new_pg1 (unat (cell_count new_pg1)) new_offset)
       (copy_leaf_records page is)))"

definition split_leaf_page ::
  "TableHandle \<Rightarrow> Page \<Rightarrow> error + (SplitLeafResult \<times> TableHandle \<times> Page)" where
  "split_leaf_page th page =
     (if page_level page \<noteq> LEAF
      then Inl (AssertionFailed ''ph->page_level == PageLevel::LEAF'')
      else if header_corrupted page then Inl (AssertionFailed ''Cannot split corrupted page'')
      else
        let (new_page_id, th1) = allocate_page th;
            new_pg = (init_page new_page_id DATA LEAF)\<lparr> parent_page_id := parent_page_id page \<rparr>;
            total = unat (cell_count page)
        in
        if total < 2 then Inl (AssertionFailed ''Cannot split page with less than 2 elements'')
        else
          let split_index = (if total div 2 = 0 then 1 else total div 2) in
          andThen (copy_leaf_records page [split_index..<total] new_pg) (\<lambda>new_pg1.
          andThen (remove_last_slots (total - split_index) split_index page) (\<lambda>page1.
          andThen (if cell_count new_pg1 > 0 then slot_key new_pg1 0 else slot_key page1 0) (\<lambda>sep.
            if unat (key_size sep) > 256 then Inl (AssertionFailed ''Key too large'')
            else Inr (\<lparr> new_page = new_page_id, seperator_key = DeadKey (key_size sep) \<rparr>,
                      write_page th1 new_page_id new_pg1, page1)))))"

section \<open>Search and insert (src/storage/btree/btree.cpp)\<close>

text \<open>
  \<^verbatim>\<open>btree_search\<close> returns false, or true with the value bytes of the slot: \<open>None\<close> or
  \<open>Some\<close> of the value. Around it, as for \<^verbatim>\<open>btree_insert\<close>: \<open>Inl\<close> for an error, and the
  outer \<open>None\<close> for a call that does not return.
\<close>

definition btree_search :: "TableHandle \<Rightarrow> Key \<Rightarrow> (error + Value option) option" where
  "btree_search th key =
     (if root_page th = 0 then Some (Inr None)
      else
        (case find_leaf_page th key of
           None \<Rightarrow> None
         | Some (Inl e) \<Rightarrow> Some (Inl e)
         | Some (Inr (leaf_page_id, leaf_page)) \<Rightarrow>
             Some (andThen (search_record leaf_page key) (\<lambda>result.
               if \<not> found result then Inr None
               else andThen (slot_value leaf_page (index result)) (\<lambda>v. Inr (Some v))))))"

text \<open>
  The part of \<^verbatim>\<open>btree_insert\<close> after the split: the separator is read from the new page
  (or, when the new page is empty, through the dead key of the split result), the
  record goes to the side the comparison names, and the parent gets the separator. The
  separator handed to \<^verbatim>\<open>insert_into_parent\<close> is a \<^verbatim>\<open>Key\<close> over \<^verbatim>\<open>sep_buf\<close> (or
  \<^verbatim>\<open>large_key_buf\<close>), an array declared in the body of \<^verbatim>\<open>btree_insert\<close>, whose frame
  is there for the whole of that call: the model passes the bytes copied into it.
\<close>

definition move_large_record ::
  "TableHandle \<Rightarrow> u32 \<Rightarrow> Page \<Rightarrow> u32 \<Rightarrow> Page \<Rightarrow> Key \<Rightarrow> Value
     \<Rightarrow> error + (TableHandle \<times> Key)" where
  "move_large_record th leaf_page_id leaf_page new_page_id new_pg key val =
     andThen (slot_at leaf_page 0) (\<lambda>large_offset.
       case cells leaf_page large_offset of
         Some (LeafRecord large_key large_value) \<Rightarrow>
           (let large_rec_size = record_size (key_size large_key) (key_size large_value) in
            if unat (key_size large_key) > 256 then Inl (AssertionFailed ''Key too large'')
            else
              andThen (remove_slot leaf_page 0) (\<lambda>leaf_page1.
              andThen (write_raw_record new_pg (LeafRecord large_key large_value) large_rec_size)
                (\<lambda>(new_offset, new_pg1).
              andThen (insert_slot new_pg1 0 new_offset) (\<lambda>new_pg2.
                let th1 = write_page th leaf_page_id leaf_page1;
                    th2 = write_page th1 new_page_id new_pg2;
                    leaf_page2 = read_page th2 leaf_page_id
                in
                if \<not> can_insert leaf_page2 (record_size (key_size key) (key_size val))
                then Inl (AssertionFailed
                       ''Left page still does not have space after moving large record'')
                else
                  andThen (page_insert leaf_page2 key val) (\<lambda>leaf_page3.
                    Inr (write_page th2 leaf_page_id leaf_page3, large_key))))))
       | _ \<Rightarrow> Inl UndefinedBehaviour)"

definition insert_after_split ::
  "TableHandle \<Rightarrow> u32 \<Rightarrow> Page \<Rightarrow> SplitLeafResult \<Rightarrow> Key \<Rightarrow> Value
     \<Rightarrow> error + (TableHandle \<times> Key)" where
  "insert_after_split th leaf_page_id leaf_page split_result key val =
     (if page_id leaf_page \<noteq> leaf_page_id
      then Inl (AssertionFailed ''Page ID mismatch after split'')
      else
        let th1 = write_page th leaf_page_id leaf_page;
            new_pg = read_page th1 (new_page split_result)
        in
        andThen (if cell_count new_pg > 0
                 then andThen (slot_key new_pg 0) (\<lambda>sep.
                        if unat (key_size sep) > 256 then Inl (AssertionFailed ''Key too large'')
                        else Inr sep)
                 else if unat (key_ref_size (seperator_key split_result)) > 256
                 then Inl (AssertionFailed ''Key too large'')
                 else key_ref_data (seperator_key split_result)) (\<lambda>sep_key.
          let cmp = compare_keys key sep_key in
          if cmp < 0 then
            (if \<not> can_insert leaf_page (record_size (key_size key) (key_size val)) then
               (if cell_count new_pg = 0 \<and> cell_count leaf_page = 1
                then move_large_record th1 leaf_page_id leaf_page (new_page split_result) new_pg
                       key val
                else Inl (AssertionFailed ''Left page does not have space after split''))
             else
               andThen (page_insert leaf_page key val) (\<lambda>leaf_page1.
                 Inr (write_page th1 leaf_page_id leaf_page1, sep_key)))
          else
            (if \<not> can_insert new_pg (record_size (key_size key) (key_size val))
             then Inl (AssertionFailed ''Right page does not have space after split'')
             else
               andThen (page_insert new_pg key val) (\<lambda>new_pg1.
                 Inr (write_page th1 (new_page split_result) new_pg1, sep_key)))))"

definition btree_insert ::
  "TableHandle \<Rightarrow> Key \<Rightarrow> Value \<Rightarrow> (error + (bool \<times> TableHandle)) option" where
  "btree_insert th key val =
     (if root_page th = 0 then
        (let (root_page_id, th1) = allocate_page th;
             root = init_page root_page_id DATA LEAF;
             th2 = th1\<lparr> root_page := root_page_id \<rparr>;
             meta = read_page th2 0;
             th3 = write_page th2 0 (meta\<lparr> ph_root_page := root_page_id \<rparr>)
         in Some (andThen (page_insert root key val) (\<lambda>root1.
                    Inr (True, write_page th3 root_page_id root1))))
      else
        (case find_leaf_page th key of
           None \<Rightarrow> None
         | Some (Inl e) \<Rightarrow> Some (Inl e)
         | Some (Inr (leaf_page_id, leaf_page)) \<Rightarrow>
             (case search_record leaf_page key of
                Inl e \<Rightarrow> Some (Inl e)
              | Inr search_result \<Rightarrow>
                  if found search_result then Some (Inr (False, th))
                  else
                    (case btree_insert_leaf_no_split th leaf_page_id leaf_page key val of
                       Inl e \<Rightarrow> Some (Inl e)
                     | Inr (inserted, th1, leaf_page1) \<Rightarrow>
                         if inserted then Some (Inr (True, th1))
                         else
                           (case split_leaf_page th1 leaf_page1 of
                              Inl e \<Rightarrow> Some (Inl e)
                            | Inr (split_result, th2, leaf_page2) \<Rightarrow>
                                (case insert_after_split th2 leaf_page_id leaf_page2 split_result
                                        key val of
                                   Inl e \<Rightarrow> Some (Inl e)
                                 | Inr (th3, parent_key) \<Rightarrow>
                                     (case insert_into_parent th3 leaf_page_id (LiveKey parent_key)
                                             (new_page split_result) of
                                        None \<Rightarrow> None
                                      | Some (Inl e) \<Rightarrow> Some (Inl e)
                                      | Some (Inr th4) \<Rightarrow> Some (Inr (True, th4)))))))))"

section \<open>Runs and observations used by the properties\<close>

text \<open>
  A sequence of \<^verbatim>\<open>btree_insert\<close> calls on one handle, in order, as the repository's tests
  make them: the return values and the final handle. The run stops at the first call
  that ends in an error or does not return.
\<close>

fun insert_all ::
  "TableHandle \<Rightarrow> (Key \<times> Value) list \<Rightarrow> (error + (bool list \<times> TableHandle)) option" where
  "insert_all th [] = Some (Inr ([], th))"
| "insert_all th ((k, v) # kvs) =
     (case btree_insert th k v of
        None \<Rightarrow> None
      | Some (Inl e) \<Rightarrow> Some (Inl e)
      | Some (Inr (b, th1)) \<Rightarrow>
          (case insert_all th1 kvs of
             None \<Rightarrow> None
           | Some (Inl e) \<Rightarrow> Some (Inl e)
           | Some (Inr (bs, th2)) \<Rightarrow> Some (Inr (b # bs, th2))))"

text \<open>
  The keys reachable through the subtree of a page, left to right, following at most
  \<open>fuel\<close> levels: the slot keys of a LEAF page; for an INTERNAL page the keys below its
  leftmost child and below the child of every entry.
\<close>

fun subtree_keys :: "nat \<Rightarrow> TableHandle \<Rightarrow> u32 \<Rightarrow> Key list" where
  "subtree_keys 0 th pid = []"
| "subtree_keys (Suc fuel) th pid =
     (let page = read_page th pid; n = unat (cell_count page) in
      case page_level page of
        LEAF \<Rightarrow> concat (map (\<lambda>i. case slot_key page i of Inr k \<Rightarrow> [k] | Inl e \<Rightarrow> []) [0..<n])
      | INTERNAL \<Rightarrow>
          subtree_keys fuel th (reserved page)
          @ concat (map (\<lambda>i. case internal_entry_at page i of
                                 Inr (k, child) \<Rightarrow> subtree_keys fuel th child
                               | Inl e \<Rightarrow> []) [0..<n]))"

text \<open>
  The separator contract (P3) at one INTERNAL page: for every entry \<open>i\<close>, the keys below
  its left neighbour (the child of entry \<open>i - 1\<close>, the leftmost child for \<open>i = 0\<close>) are
  smaller than the entry's key, and the keys below the entry's own child are not.
\<close>

definition left_child_of :: "Page \<Rightarrow> nat \<Rightarrow> u32" where
  "left_child_of page i =
     (if i = 0 then reserved page
      else case internal_entry_at page (i - 1) of Inr (k, child) \<Rightarrow> child | Inl e \<Rightarrow> 0)"

definition separator_contract_at :: "nat \<Rightarrow> TableHandle \<Rightarrow> u32 \<Rightarrow> bool" where
  "separator_contract_at fuel th pid =
     (let page = read_page th pid in
      list_all (\<lambda>i. case internal_entry_at page i of
                       Inl e \<Rightarrow> False
                     | Inr (k, child) \<Rightarrow>
                         list_all (\<lambda>x. compare_keys x k < 0)
                           (subtree_keys fuel th (left_child_of page i))
                         \<and> list_all (\<lambda>x. compare_keys x k \<ge> 0) (subtree_keys fuel th child))
        [0..<unat (cell_count page)])"

text \<open>
  The slot of the first key greater than \<open>key\<close>, or the number of keys when there is
  none: the position \<open>pos\<close> of the spec's section 4.3.1.
\<close>

definition upper_pos :: "Key \<Rightarrow> Key list \<Rightarrow> nat" where
  "upper_pos key ks = length (takeWhile (\<lambda>k. compare_keys key k \<ge> 0) ks)"

text \<open>Keys in ascending order, as the page invariant of the spec's section 3 has them.\<close>

definition ascending :: "Key list \<Rightarrow> bool" where
  "ascending ks = sorted_wrt (\<lambda>a b. compare_keys a b \<le> 0) ks"

text \<open>The entries of an INTERNAL page and the records of a LEAF page, slot by slot.\<close>

definition internal_entries :: "Page \<Rightarrow> (error + (Key \<times> u32)) list" where
  "internal_entries page = map (internal_entry_at page) [0..<unat (cell_count page)]"


text \<open>
  A table whose root is an INTERNAL page with one entry, key "a", that names the child
  page 2,000,000; the leftmost child is page 2.
\<close>

definition corrupt_root :: Page where
  "corrupt_root =
     (init_page 1 INDEX INTERNAL)
       \<lparr> cell_count := 1, free_start := 39, free_end := 8190, reserved := 2,
         slots := [32], cells := (\<lambda>off. None)(32 := Some (InternalEntry [97] 2000000)) \<rparr>"

definition corrupt_table :: TableHandle where
  "corrupt_table =
     \<lparr> dm = (\<lambda>pid. zero_page)(0 := (init_page 0 META LEAF)\<lparr> ph_root_page := 1 \<rparr>,
                               1 := corrupt_root),
       root_page = 1, next_free_page_id = 3 \<rparr>"





text \<open>
  INTERNAL pages used as inputs: one with the entries ("b", 5) and ("d", 6) and the
  leftmost child 4; one whose leftmost child pointer is 0 while its \<open>root_page\<close> field
  is 7, with the entry ("b", 5); one whose first entry names the child 0.
\<close>

definition two_entry_page :: Page where
  "two_entry_page =
     (init_page 3 INDEX INTERNAL)
       \<lparr> cell_count := 2, free_start := 46, free_end := 8188, reserved := 4,
         slots := [32, 39],
         cells := (\<lambda>off. None)(32 := Some (InternalEntry [98] 5),
                                 39 := Some (InternalEntry [100] 6)) \<rparr>"

definition no_leftmost_page :: Page where
  "no_leftmost_page =
     (init_page 3 INDEX INTERNAL)
       \<lparr> cell_count := 1, free_start := 39, free_end := 8190, ph_root_page := 7,
         slots := [32], cells := (\<lambda>off. None)(32 := Some (InternalEntry [98] 5)) \<rparr>"

definition zero_child_page :: Page where
  "zero_child_page =
     (init_page 3 INDEX INTERNAL)
       \<lparr> cell_count := 2, free_start := 46, free_end := 8188, reserved := 4,
         slots := [32, 39],
         cells := (\<lambda>off. None)(32 := Some (InternalEntry [98] 0),
                                 39 := Some (InternalEntry [100] 6)) \<rparr>"

text \<open>
  LEAF pages used as inputs, on page 1 of a table: one with the single record
  (key 1, value 2), one with four records of keys 1, 3, 5, 7. And an INTERNAL page with
  four entries, keys "b", "d", "f", "h" with the children 5 to 8, leftmost child 4.
\<close>

definition one_record_leaf :: Page where
  "one_record_leaf =
     (init_page 1 DATA LEAF)
       \<lparr> cell_count := 1, free_start := 38, free_end := 8190, slots := [32],
         cells := (\<lambda>off. None)(32 := Some (LeafRecord [1] [2])) \<rparr>"



definition four_entry_page :: Page where
  "four_entry_page =
     (init_page 3 INDEX INTERNAL)
       \<lparr> cell_count := 4, free_start := 60, free_end := 8184, reserved := 4,
         slots := [32, 39, 46, 53],
         cells := (\<lambda>off. None)(32 := Some (InternalEntry [98] 5),
                                 39 := Some (InternalEntry [100] 6),
                                 46 := Some (InternalEntry [102] 7),
                                 53 := Some (InternalEntry [104] 8)) \<rparr>"

definition table_with :: "u32 \<Rightarrow> Page \<Rightarrow> TableHandle" where
  "table_with pid page =
     \<lparr> dm = (\<lambda>p. zero_page)(0 := (init_page 0 META LEAF)\<lparr> ph_root_page := pid \<rparr>, pid := page),
       root_page = pid, next_free_page_id = 9 \<rparr>"

text \<open>
  A page whose directory fits the header: it has \<open>cell_count\<close> slots, no more than a page
  holds, and every slot points below \<open>free_start\<close>.
\<close>

definition dir_ok :: "Page \<Rightarrow> bool" where
  "dir_ok page \<longleftrightarrow>
     unat (cell_count page) = length (slots page)
     \<and> length (slots page) * 2 \<le> PAGE_SIZE
     \<and> list_all (\<lambda>s. unat s < unat (free_start page)) (slots page)"


section \<open>Facts about the page primitives\<close>

lemma andThen_simps [simp]: "andThen (Inl e) f = Inl e" "andThen (Inr x) f = f x"
  by (simp_all add: andThen_def)

lemma andThen_Inr_iff: "andThen m f = Inr y \<longleftrightarrow> (\<exists>x. m = Inr x \<and> f x = Inr y)"
  by (cases m) simp_all

declare search_loop.simps [simp del] find_pos.simps [simp del]

text \<open>
  The two loops of \<^verbatim>\<open>insert_slot\<close> and of \<^verbatim>\<open>remove_slot\<close> on the directory as a list.
  \<^verbatim>\<open>insert_slot\<close> puts the new offset at \<open>idx\<close>. \<^verbatim>\<open>remove_slot\<close> copies upwards in
  ascending order over the cells it is about to read, so every slot below \<open>idx\<close> ends
  up as a copy of slot 0.
\<close>

lemma fold_noop: "fold (\<lambda>i a. a[i := a ! i]) js a = a"
  by (induction js) simp_all

lemma fold_shift_down_nth:
  "idx \<le> length xs \<Longrightarrow>
   length (fold (\<lambda>i a. a[i := a ! (i + 1)]) [0..<idx] (x # xs)) = Suc (length xs)
   \<and> (\<forall>j \<le> length xs. fold (\<lambda>i a. a[i := a ! (i + 1)]) [0..<idx] (x # xs) ! j
          = (if j < idx then xs ! j else (x # xs) ! j))"
proof (induction idx)
  case 0
  then show ?case by simp
next
  case (Suc k)
  then show ?case by (auto simp: nth_list_update less_Suc_eq)
qed

lemma fold_shift_down:
  assumes "idx \<le> length xs"
  shows "(fold (\<lambda>i a. a[i := a ! (i + 1)]) [0..<idx] (x # xs))[idx := y]
         = take idx xs @ y # drop idx xs"
proof (rule nth_equalityI)
  show "length ((fold (\<lambda>i a. a[i := a ! (i + 1)]) [0..<idx] (x # xs))[idx := y])
        = length (take idx xs @ y # drop idx xs)"
    using fold_shift_down_nth [OF assms, of x] assms by simp
next
  fix j
  assume "j < length ((fold (\<lambda>i a. a[i := a ! (i + 1)]) [0..<idx] (x # xs))[idx := y])"
  then have j: "j \<le> length xs"
    using fold_shift_down_nth [OF assms, of x] by simp
  with fold_shift_down_nth [OF assms, of x] assms
  show "(fold (\<lambda>i a. a[i := a ! (i + 1)]) [0..<idx] (x # xs))[idx := y] ! j
        = (take idx xs @ y # drop idx xs) ! j"
    by (auto simp: nth_list_update nth_append nth_Cons' min_def)
qed

lemma fold_shift_up_nth:
  "idx < length xs \<Longrightarrow>
   length (fold (\<lambda>i a. a[i + 1 := a ! i]) [0..<idx] xs) = length xs
   \<and> (\<forall>j < length xs. fold (\<lambda>i a. a[i + 1 := a ! i]) [0..<idx] xs ! j
          = (if j \<le> idx then xs ! 0 else xs ! j))"
proof (induction idx)
  case 0
  then show ?case by simp
next
  case (Suc k)
  then show ?case by (auto simp: nth_list_update less_Suc_eq_le)
qed

lemma fold_shift_up:
  assumes "idx < length xs"
  shows "tl (fold (\<lambda>i a. a[i + 1 := a ! i]) [0..<idx] xs)
         = replicate idx (xs ! 0) @ drop (Suc idx) xs"
proof (rule nth_equalityI)
  show "length (tl (fold (\<lambda>i a. a[i + 1 := a ! i]) [0..<idx] xs))
        = length (replicate idx (xs ! 0) @ drop (Suc idx) xs)"
    using fold_shift_up_nth [OF assms] assms by simp
next
  fix j
  assume "j < length (tl (fold (\<lambda>i a. a[i + 1 := a ! i]) [0..<idx] xs))"
  then have j: "Suc j < length xs"
    using fold_shift_up_nth [OF assms] by simp
  with fold_shift_up_nth [OF assms] assms
  show "tl (fold (\<lambda>i a. a[i + 1 := a ! i]) [0..<idx] xs) ! j
        = (replicate idx (xs ! 0) @ drop (Suc idx) xs) ! j"
    by (auto simp: nth_tl nth_append)
qed

lemma insert_slot_eq:
  assumes "idx \<le> length (slots page)" and "unat (cell_count page) \<le> length (slots page)"
  shows "insert_slot page idx record_offset =
     (let page' = page\<lparr> free_end := free_end page - 2,
                         slots := take idx (slots page) @ record_offset # drop idx (slots page),
                         cell_count := cell_count page + 1 \<rparr>
      in if \<not> free_start page' \<le> free_end page'
         then Inl (AssertionFailed ''header->free_start <= header->free_end'')
         else if \<not> unat (cell_count page') * 2 \<le> PAGE_SIZE
         then Inl (AssertionFailed ''header->cell_count * sizeof(uint16_t) <= PAGE_SIZE'')
         else Inr page')"
  unfolding insert_slot_def Let_def fold_noop fold_shift_down [OF assms(1)]
  using assms by simp

lemma remove_slot_eq:
  assumes "idx < unat (cell_count page)" and "unat (cell_count page) \<le> length (slots page)"
  shows "remove_slot page idx =
     (let page' = page\<lparr> free_end := free_end page + 2,
                         slots := replicate idx (slots page ! 0) @ drop (Suc idx) (slots page),
                         cell_count := cell_count page - 1 \<rparr>
      in if \<not> free_start page' \<le> free_end page'
         then Inl (AssertionFailed ''header->free_start <= header->free_end'')
         else if \<not> unat (cell_count page') * 2 \<le> PAGE_SIZE
         then Inl (AssertionFailed ''header->cell_count * sizeof(uint16_t) <= PAGE_SIZE'')
         else Inr page')"
proof -
  have i: "idx < length (slots page)" using assms by simp
  have g: "\<not> int idx > int (unat (cell_count page)) - 1" using assms by linarith
  have l: "\<not> unat (cell_count page) > length (slots page)" using assms by simp
  show ?thesis
    unfolding remove_slot_def Let_def fold_noop fold_shift_up [OF i]
    using g l by (simp del: of_nat_unat)
qed

lemma remove_last_slots_unfold:
  "remove_last_slots rounds split_index page =
     (if rounds = 0 then Inr page
      else let last_index = unat (cell_count page - 1) in
           if last_index \<ge> split_index
           then andThen (remove_slot page last_index) (remove_last_slots (rounds - 1) split_index)
           else Inr page)"
  by (cases rounds) (simp_all add: Let_def cong: if_cong)


lemma subtree_keys_unfold:
  "subtree_keys fuel th pid =
     (if fuel = 0 then []
      else let page = read_page th pid; n = unat (cell_count page) in
        case page_level page of
          LEAF \<Rightarrow> concat (map (\<lambda>i. case slot_key page i of Inr k \<Rightarrow> [k] | Inl e \<Rightarrow> []) [0..<n])
        | INTERNAL \<Rightarrow>
            subtree_keys (fuel - 1) th (reserved page)
            @ concat (map (\<lambda>i. case internal_entry_at page i of
                                   Inr (k, child) \<Rightarrow> subtree_keys (fuel - 1) th child
                                 | Inl e \<Rightarrow> []) [0..<n]))"
proof (cases fuel)
  case 0
  then show ?thesis by simp
next
  case (Suc m)
  then have m: "fuel - 1 = m" by simp
  show ?thesis unfolding m unfolding Suc by simp
qed

text \<open>
  Congruence rules that keep the simplifier out of a function until it is applied to
  an element of an evaluated list.
\<close>

lemma map_weak_cong: "xs = ys \<Longrightarrow> map f xs = map f ys"
  by simp

lemma list_all_weak_cong: "xs = ys \<Longrightarrow> list_all P xs = list_all P ys"
  by simp

text \<open>The equations that evaluate a run on concrete pages.\<close>

lemma word_numeral_le_1:
  "(numeral n :: 'a::len word) \<le> 1 \<longleftrightarrow> unat (numeral n :: 'a word) \<le> 1"
  by (simp add: word_le_nat_alt)

lemmas page_defs = init_page_def slot_at_def record_size_def
  cell_size_def can_insert_def write_raw_record_def leaf_record_at_def internal_entry_at_def
  slot_key_def slot_value_def search_record_def search_record_ref_def page_insert_def key_size_def
  PAGE_SIZE_def SIZEOF_PageHeader_def SIZEOF_RecordHeader_def SIZEOF_InternalEntry_def
  INVALID_PAGE_ID_def UINT32_MAX_def

lemmas btree_defs = read_page_def write_page_def allocate_page_def fresh_table_def
  internal_find_child_def write_internal_entry_def insert_internal_no_split_def
  split_internal_page_def create_new_root_def find_leaf_page_def header_corrupted_def
  btree_insert_leaf_no_split_def split_leaf_page_def btree_search_def move_large_record_def
  insert_after_split_def btree_insert_def

lemmas eval_simps = page_defs btree_defs Let_def find_leaf_loop.simps insert_into_parent.simps
  search_loop.simps find_pos.simps insert_slot_eq remove_slot_eq upt_conv_Cons
  remove_last_slots_unfold word_numeral_le_1

section \<open>The division guard of the evaluator\<close>

text \<open>
  The zero guard of the operator "/": when both operands evaluate and the right one is
  the integer 0, the result is the error "Division by zero", whatever the left value
  is; and when the expression evaluates to a value, both operands were integers, the
  right one not 0, and the value is their quotient truncated towards zero.
\<close>

lemma evaluate_expr_division_guard:
  "(evaluate_expr l t cs = Inr lv \<and> evaluate_expr r t cs = Inr (IntValue 0)
      \<longrightarrow> evaluate_expr (BinaryExpr ''/'' l r) t cs = Inl (RuntimeError ''Division by zero''))
   \<and> (evaluate_expr (BinaryExpr ''/'' l r) t cs = Inr v
      \<longrightarrow> (\<exists>a b. evaluate_expr l t cs = Inr (IntValue a) \<and> evaluate_expr r t cs = Inr (IntValue b)
             \<and> b \<noteq> 0 \<and> in_int_range (trunc_div (sint a) (sint b))
             \<and> v = IntValue (word_of_int (trunc_div (sint a) (sint b)))))"
proof (intro conjI impI)
  assume "evaluate_expr l t cs = Inr lv \<and> evaluate_expr r t cs = Inr (IntValue 0)"
  then show "evaluate_expr (BinaryExpr ''/'' l r) t cs = Inl (RuntimeError ''Division by zero'')"
    by (simp add: binary_op_def get_int_def)
next
  assume ok: "evaluate_expr (BinaryExpr ''/'' l r) t cs = Inr v"
  then obtain lv rv where l: "evaluate_expr l t cs = Inr lv" and r: "evaluate_expr r t cs = Inr rv"
    and b: "binary_op ''/'' lv rv = Inr v"
    by (auto simp: andThen_Inr_iff)
  from b obtain d where rv: "rv = IntValue d" and d: "d \<noteq> 0"
    by (cases rv) (auto simp: binary_op_def get_int_def split: if_splits)
  from b rv d obtain a where lv: "lv = IntValue a"
    by (cases lv) (auto simp: binary_op_def get_int_def)
  from b rv d lv have "in_int_range (trunc_div (sint a) (sint d))"
    and "v = IntValue (word_of_int (trunc_div (sint a) (sint d)))"
    by (auto simp: binary_op_def get_int_def int_result_def split: if_splits)
  with l r rv lv d
  show "\<exists>a b. evaluate_expr l t cs = Inr (IntValue a) \<and> evaluate_expr r t cs = Inr (IntValue b)
             \<and> b \<noteq> 0 \<and> in_int_range (trunc_div (sint a) (sint b))
             \<and> v = IntValue (word_of_int (trunc_div (sint a) (sint b)))"
    by blast
qed

lemma evaluate_expr_division_guard_example:
  "evaluate_expr (BinaryExpr ''/'' (StringExpr ''abc'') (NumberExpr 0)) [] []
     = Inl (RuntimeError ''Division by zero'')
   \<and> evaluate_expr (BinaryExpr ''/'' (NumberExpr (- 7)) (NumberExpr 2)) [] [] = Inr (IntValue (- 3))
   \<and> (\<exists>a b. evaluate_expr (NumberExpr (- 7)) [] [] = Inr (IntValue a)
          \<and> evaluate_expr (NumberExpr 2) [] [] = Inr (IntValue b) \<and> b \<noteq> 0
          \<and> IntValue (- 3) = IntValue (word_of_int (trunc_div (sint a) (sint b))))"
proof -
  have e: "evaluate_expr (BinaryExpr ''/'' (NumberExpr (- 7)) (NumberExpr 2)) [] [] = Inr (IntValue (- 3))"
    by (simp add: binary_op_def get_int_def int_result_def trunc_div_def in_int_range_def)
  have z: "evaluate_expr (StringExpr ''abc'') [] [] = Inr (StringValue ''abc'')
           \<and> evaluate_expr (NumberExpr 0) [] [] = Inr (IntValue 0)"
    by simp
  from evaluate_expr_division_guard [of "StringExpr ''abc''" "[]" "[]" "StringValue ''abc''" "NumberExpr 0" "IntValue 0"] z
  have 1: "evaluate_expr (BinaryExpr ''/'' (StringExpr ''abc'') (NumberExpr 0)) [] []
     = Inl (RuntimeError ''Division by zero'')" by blast
  from evaluate_expr_division_guard [of "NumberExpr (- 7)" "[]" "[]" "IntValue (- 7)" "NumberExpr 2" "IntValue (- 3)"] e
  have 2: "\<exists>a b. evaluate_expr (NumberExpr (- 7)) [] [] = Inr (IntValue a)
          \<and> evaluate_expr (NumberExpr 2) [] [] = Inr (IntValue b) \<and> b \<noteq> 0
          \<and> IntValue (- 3) = IntValue (word_of_int (trunc_div (sint a) (sint b)))"
    by blast
  from 1 2 e show ?thesis by blast
qed

text \<open>
  C10: no unguarded machine division is reachable through expression evaluation. The
  guard of "/" tests the right operand against 0 and nothing else. With the columns
  \<open>a = -2147483648\<close> and \<open>b = -1\<close> the right operand of \<open>a / b\<close> is not 0, the guard
  lets the division through, and the quotient 2147483648 is not an \<^verbatim>\<open>int\<close>: the machine
  division is executed on operands for which it has no result.
\<close>

theorem evaluate_expr_division_overflow_unguarded:
  "evaluate_expr (IdentifierExpr ''a'') [IntValue (- 2147483648), IntValue (- 1)] [''a'', ''b'']
     = Inr (IntValue (- 2147483648))
   \<and> evaluate_expr (IdentifierExpr ''b'') [IntValue (- 2147483648), IntValue (- 1)] [''a'', ''b'']
     = Inr (IntValue (- 1))
   \<and> (- 1 :: 32 word) \<noteq> 0
   \<and> trunc_div (sint (- 2147483648 :: 32 word)) (sint (- 1 :: 32 word)) = 2147483648
   \<and> evaluate_expr (BinaryExpr ''/'' (IdentifierExpr ''a'') (IdentifierExpr ''b''))
         [IntValue (- 2147483648), IntValue (- 1)] [''a'', ''b'']
     = Inl UndefinedBehaviour"
  by (simp add: binary_op_def get_int_def int_result_def trunc_div_def in_int_range_def)


section \<open>The descent to a leaf\<close>








section \<open>Key order and the binary search of an internal page\<close>

lemma compare_keys_less: "compare_keys a b < 0 \<longleftrightarrow> a < b"
  by (induction a b rule: compare_keys.induct) auto

lemma compare_keys_eq: "compare_keys a b = 0 \<longleftrightarrow> a = b"
  by (induction a b rule: compare_keys.induct) auto

lemma compare_keys_le: "compare_keys a b \<le> 0 \<longleftrightarrow> a \<le> b"
  using compare_keys_less [of a b] compare_keys_eq [of a b] by (auto simp: le_less)

lemma compare_keys_ge: "compare_keys a b \<ge> 0 \<longleftrightarrow> b \<le> a"
  using compare_keys_less [of a b] by (auto simp: not_less [symmetric])

lemma ascending_sorted: "ascending ks \<longleftrightarrow> sorted ks"
  by (simp add: ascending_def compare_keys_le)

lemma upper_pos_eq:
  assumes "p \<le> length ks" and "\<And>i. i < p \<Longrightarrow> ks ! i \<le> key"
    and "p < length ks \<Longrightarrow> key < ks ! p"
  shows "upper_pos key ks = p"
proof -
  have "takeWhile (\<lambda>k. compare_keys key k \<ge> 0) ks = take p ks"
    by (rule takeWhile_eq_take_P_nth) (use assms in \<open>auto simp: compare_keys_ge not_le\<close>)
  with assms(1) show ?thesis by (simp add: upper_pos_def)
qed

lemma find_pos_upper_pos:
  assumes keys: "\<And>i. i < length ks \<Longrightarrow> slot_key page i = Inr (ks ! i)"
    and asc: "sorted ks"
  shows "0 \<le> left \<Longrightarrow> left \<le> right + 1 \<Longrightarrow> right + 1 \<le> int (length ks) \<Longrightarrow> pos = right + 1
     \<Longrightarrow> (\<And>i. int i < left \<Longrightarrow> ks ! i \<le> key)
     \<Longrightarrow> (\<And>i. pos \<le> int i \<Longrightarrow> i < length ks \<Longrightarrow> key < ks ! i)
     \<Longrightarrow> find_pos page key left right pos = Inr (int (upper_pos key ks))"
proof (induction "nat (right - left + 1)" arbitrary: left right pos rule: less_induct)
  case less
  note prems = less.prems
  show ?case
  proof (cases "left \<le> right")
    case False
    with prems have lp: "left = pos" by simp
    have "upper_pos key ks = nat pos"
    proof (rule upper_pos_eq)
      show "nat pos \<le> length ks" using prems by simp
      show "ks ! i \<le> key" if "i < nat pos" for i
        using that prems(5) [of i] lp prems(1) by simp
      show "key < ks ! nat pos" if "nat pos < length ks"
        using that prems(6) [of "nat pos"] lp prems(1) by simp
    qed
    with False lp prems(1) show ?thesis
      by (subst find_pos.simps) simp
  next
    case True
    define mid where "mid = (right + left) div 2"
    have mid: "left \<le> mid" "mid \<le> right" using True by (simp_all add: mid_def)
    with prems have m: "nat mid < length ks" "0 \<le> mid" by simp_all
    have sk: "slot_key page (nat mid) = Inr (ks ! nat mid)" using keys m by simp
    show ?thesis
    proof (cases "compare_keys key (ks ! nat mid) < 0")
      case lt: True
      have "find_pos page key left (mid - 1) mid = Inr (int (upper_pos key ks))"
      proof (rule less.hyps)
        show "nat (mid - 1 - left + 1) < nat (right - left + 1)" using mid by simp
        show "0 \<le> left" by fact
        show "left \<le> mid - 1 + 1" using mid by simp
        show "mid - 1 + 1 \<le> int (length ks)" using m by simp
        show "mid = mid - 1 + 1" by simp
        show "ks ! i \<le> key" if "int i < left" for i using that prems(5) by simp
        show "key < ks ! i" if "mid \<le> int i" "i < length ks" for i
        proof -
          have "ks ! nat mid \<le> ks ! i"
            using that m asc by (intro sorted_nth_mono) simp_all
          with lt show ?thesis by (simp add: compare_keys_less)
        qed
      qed
      with True sk lt show ?thesis
        by (subst find_pos.simps) (simp add: mid_def Let_def)
    next
      case ge: False
      have "find_pos page key (mid + 1) right pos = Inr (int (upper_pos key ks))"
      proof (rule less.hyps)
        show "nat (right - (mid + 1) + 1) < nat (right - left + 1)" using mid by simp
        show "0 \<le> mid + 1" using m by simp
        show "mid + 1 \<le> right + 1" using mid by simp
        show "right + 1 \<le> int (length ks)" by fact
        show "pos = right + 1" by fact
        show "ks ! i \<le> key" if "int i < mid + 1" for i
        proof -
          have "ks ! i \<le> ks ! nat mid"
            using that m asc by (intro sorted_nth_mono) simp_all
          moreover from ge have "ks ! nat mid \<le> key" by (simp add: compare_keys_less not_less)
          ultimately show ?thesis by simp
        qed
        show "key < ks ! i" if "pos \<le> int i" "i < length ks" for i
          using that prems(6) by simp
      qed
      with True sk ge show ?thesis
        by (subst find_pos.simps) (simp add: mid_def Let_def)
    qed
  qed
qed


lemma upper_pos_le: "upper_pos key ks \<le> length ks"
  by (simp add: upper_pos_def length_takeWhile_le)

lemma internal_entries_nth:
  assumes "internal_entries page = map Inr es"
  shows "length es = unat (cell_count page)"
    and "i < length es \<Longrightarrow> internal_entry_at page i = Inr (es ! i)"
proof -
  from assms have "length (internal_entries page) = length es" by simp
  then show l: "length es = unat (cell_count page)" by (simp add: internal_entries_def)
  assume i: "i < length es"
  with l have "internal_entries page ! i = internal_entry_at page i"
    by (simp add: internal_entries_def)
  with assms i show "internal_entry_at page i = Inr (es ! i)" by simp
qed

text \<open>
  C6, amended: for every INTERNAL page whose entries are readable and whose keys are
  in ascending order, and every key, \<^verbatim>\<open>internal_find_child\<close> computes \<open>pos\<close>, the smallest
  slot index \<open>i\<close> with \<open>key < key_i\<close> (\<open>cell_count\<close> if there is none), and
  \<^item> for \<open>pos = 0\<close> returns the leftmost child stored in \<open>reserved[0..4)\<close> when that id
    is nonzero and below 1,000,000; otherwise the \<open>root_page\<close> field of a page without
    parent (when nonzero, not the page itself and below 1,000,000), otherwise the child
    of entry 0 (when nonzero and below 1,000,000), otherwise it fails its assertion;
  \<^item> for \<open>pos = cell_count > 0\<close> returns \<open>entry[cell_count - 1].child_page\<close>, unchecked;
  \<^item> for \<open>0 < pos < cell_count\<close> returns \<open>entry[pos - 1].child_page\<close> when that id is
    nonzero and below 1,000,000, and fails its assertion otherwise.
\<close>

theorem internal_find_child_dispatch:
  assumes lvl: "page_level page = INTERNAL"
    and ents: "internal_entries page = map Inr es"
    and asc: "ascending (map fst es)"
  shows "internal_find_child page key =
     (let pos = upper_pos key (map fst es); n = unat (cell_count page) in
      if pos = 0 then
        (if reserved page \<noteq> 0 \<and> reserved page < 1000000 then Inr (reserved page)
         else if parent_page_id page = 0 \<and> ph_root_page page \<noteq> 0
                 \<and> ph_root_page page \<noteq> page_id page \<and> ph_root_page page < 1000000
         then Inr (ph_root_page page)
         else if n > 0 \<and> snd (es ! 0) \<noteq> 0 \<and> snd (es ! 0) < 1000000 then Inr (snd (es ! 0))
         else Inl (AssertionFailed ''No valid leftmost child found''))
      else if pos = n then Inr (snd (es ! (n - 1)))
      else if snd (es ! (pos - 1)) = 0 \<or> snd (es ! (pos - 1)) \<ge> 1000000
      then Inl (AssertionFailed ''Invalid child page ID'')
      else Inr (snd (es ! (pos - 1))))"
proof -
  define ks where "ks = map fst es"
  define n where "n = unat (cell_count page)"
  define pos where "pos = upper_pos key ks"
  note e = internal_entries_nth [OF ents]
  have len: "length ks = n" "length es = n" using e(1) by (simp_all add: ks_def n_def)
  have keys: "slot_key page i = Inr (ks ! i)" if "i < length ks" for i
    using that e(2) [of i] lvl by (simp add: slot_key_def ks_def split_beta)
  have "find_pos page key 0 (int n - 1) (int n) = Inr (int (upper_pos key ks))"
    by (rule find_pos_upper_pos [OF keys]) (use asc len in \<open>simp_all add: ascending_sorted ks_def\<close>)
  then have fp: "find_pos page key 0 (int n - 1) (int n) = Inr (int pos)"
    by (simp add: pos_def)
  have pn: "pos \<le> n" using upper_pos_le [of key ks] len by (simp add: pos_def)
  have inv: "reserved page < 1000000 \<Longrightarrow> reserved page \<noteq> INVALID_PAGE_ID"
    by (auto simp: INVALID_PAGE_ID_def)
  have cc: "cell_count page > 0 \<longleftrightarrow> n > 0" "cell_count page = 0 \<longleftrightarrow> n = 0"
    by (simp_all add: n_def word_greater_zero_iff unat_eq_0 unat_gt_0)
  have ent: "internal_entry_at page i = Inr (es ! i)" if "i < n" for i
    using that e(2) len by simp
  show ?thesis
  proof (cases "pos = 0")
    case True
    then show ?thesis
      using fp lvl inv cc ent [of 0]
      unfolding internal_find_child_def Let_def n_def [symmetric] pos_def [symmetric] ks_def [symmetric]
      by (auto simp: split_beta)
  next
    case False
    show ?thesis
    proof (cases "pos = n")
      case True
      with False have "n - 1 < n" by simp
      from ent [OF this] True False fp lvl cc show ?thesis
        unfolding internal_find_child_def Let_def n_def [symmetric] pos_def [symmetric] ks_def [symmetric]
        by (auto simp: split_beta)
    next
      case ne: False
      with False pn have "pos - 1 < n" "nat (int pos - 1) = pos - 1" by simp_all
      with ent [of "pos - 1"] ne False fp lvl pn show ?thesis
        unfolding internal_find_child_def Let_def n_def [symmetric] pos_def [symmetric] ks_def [symmetric]
        by (auto simp: split_beta)
    qed
  qed
qed

lemma entry_eval_simps:
  "internal_entries two_entry_page = map Inr [([98], 5), ([100], 6)]"
  by (simp add: internal_entries_def two_entry_page_def internal_entry_at_def slot_at_def
        init_page_def upt_conv_Cons)

theorem internal_find_child_dispatch_witness:
  "internal_find_child two_entry_page [97] = Inr 4
   \<and> internal_find_child two_entry_page [99] = Inr 5
   \<and> internal_find_child two_entry_page [101] = Inr 6"
proof -
  have l: "page_level two_entry_page = INTERNAL"
    by (simp add: two_entry_page_def init_page_def)
  have a: "ascending (map fst [([98 :: u8], 5 :: u32), ([100], 6)])"
    by (simp add: ascending_def)
  have c: "unat (cell_count two_entry_page) = 2" "reserved two_entry_page = 4"
    by (simp_all add: two_entry_page_def)
  show ?thesis
    using internal_find_child_dispatch [OF l entry_eval_simps a, of "[97]"]
      internal_find_child_dispatch [OF l entry_eval_simps a, of "[99]"]
      internal_find_child_dispatch [OF l entry_eval_simps a, of "[101]"]
    by (simp add: upper_pos_def c word_numeral_le_1)
qed

text \<open>
  C6, as the claim states it, fails on a page whose leftmost child pointer is 0: for
  \<open>pos = 0\<close> the function returns the page's \<open>root_page\<close> field, 7, not the pointer in
  \<open>reserved\<close>. It also fails for \<open>0 < pos < cell_count\<close> when \<open>entry[pos - 1]\<close> names
  the child 0: the function stops at its assertion and returns nothing.
\<close>

theorem internal_find_child_fallbacks:
  "upper_pos [97] [[98]] = 0 \<and> reserved no_leftmost_page = 0
   \<and> internal_find_child no_leftmost_page [97] = Inr 7
   \<and> upper_pos [99] [[98], [100]] = 1
   \<and> internal_entry_at zero_child_page 0 = Inr ([98], 0)
   \<and> internal_find_child zero_child_page [99] = Inl (AssertionFailed ''Invalid child page ID'')"
  by (simp add: upper_pos_def no_leftmost_page_def zero_child_page_def eval_simps)


section \<open>The loops of the two split functions\<close>

text \<open>
  What \<^verbatim>\<open>remove_slot\<close>, \<^verbatim>\<open>insert_slot\<close> and the loops built from them leave behind when
  they return, on a page whose directory has at least \<open>cell_count\<close> slots.
\<close>

lemma dir_ok_init_page: "dir_ok (init_page pid ptype plevel)"
  by (simp add: dir_ok_def init_page_def)

lemma remove_slot_Inr:
  assumes "remove_slot page idx = Inr page'"
    and "idx < unat (cell_count page)" and "unat (cell_count page) \<le> length (slots page)"
  shows "page' = page\<lparr> free_end := free_end page + 2,
                         slots := replicate idx (slots page ! 0) @ drop (Suc idx) (slots page),
                         cell_count := cell_count page - 1 \<rparr>"
  using assms(1) unfolding remove_slot_eq [OF assms(2,3)] Let_def
  by (simp split: if_splits)

lemma insert_slot_Inr:
  assumes "insert_slot page idx off = Inr page'"
    and "idx \<le> length (slots page)" and "unat (cell_count page) \<le> length (slots page)"
  shows "page' = page\<lparr> free_end := free_end page - 2,
                         slots := take idx (slots page) @ off # drop idx (slots page),
                         cell_count := cell_count page + 1 \<rparr>"
    and "unat (cell_count page + 1) * 2 \<le> PAGE_SIZE"
  using assms(1) unfolding insert_slot_eq [OF assms(2,3)] Let_def
  by (simp_all split: if_splits)

lemma remove_last_slots_Inr:
  "remove_last_slots rounds split_index page = Inr page' \<Longrightarrow>
   unat (cell_count page) = split_index + rounds \<Longrightarrow>
   split_index + rounds \<le> length (slots page) \<Longrightarrow>
   unat (cell_count page') = split_index
   \<and> length (slots page') = length (slots page) - rounds
   \<and> cells page' = cells page \<and> free_start page' = free_start page
   \<and> page_level page' = page_level page \<and> page_id page' = page_id page
   \<and> parent_page_id page' = parent_page_id page \<and> reserved page' = reserved page
   \<and> (split_index > 0 \<longrightarrow> slots page' ! 0 = slots page ! 0)"
proof (induction rounds arbitrary: page)
  case 0
  then show ?case by simp
next
  case (Suc r)
  from Suc.prems(2) have nz: "cell_count page \<noteq> 0" by (auto simp: unat_eq_0)
  then have last: "unat (cell_count page - 1) = split_index + r"
    using Suc.prems(2) by (simp add: unat_minus_one)
  with Suc.prems(1) obtain p1 where rs: "remove_slot page (split_index + r) = Inr p1"
    and rest: "remove_last_slots r split_index p1 = Inr page'"
    by (auto simp: Let_def andThen_Inr_iff)
  have p1: "p1 = page\<lparr> free_end := free_end page + 2,
                         slots := replicate (split_index + r) (slots page ! 0)
                                  @ drop (Suc (split_index + r)) (slots page),
                         cell_count := cell_count page - 1 \<rparr>"
    by (rule remove_slot_Inr [OF rs]) (use Suc.prems in simp_all)
  have c1: "unat (cell_count p1) = split_index + r" using p1 last by simp
  have l1: "length (slots p1) = length (slots page) - 1" using p1 Suc.prems(3) by simp
  then have l1': "split_index + r \<le> length (slots p1)" using Suc.prems(3) by simp
  have h0: "split_index > 0 \<Longrightarrow> slots p1 ! 0 = slots page ! 0"
    using p1 by (simp add: nth_append)
  from Suc.IH [OF rest c1 l1'] p1 l1 h0 show ?case by auto
qed

lemma append_cell:
  assumes w: "write_raw_record np c sz = Inr (off, np1)"
    and i: "insert_slot np1 (unat (cell_count np1)) off = Inr np2"
    and ok: "dir_ok np" and sz: "0 < unat sz"
  shows "slots np2 = slots np @ [free_start np]"
    and "cells np2 = (cells np)(free_start np := Some c)"
    and "dir_ok np2"
    and "page_level np2 = page_level np" "page_id np2 = page_id np"
    and "parent_page_id np2 = parent_page_id np" "reserved np2 = reserved np"
    and "unat (cell_count np2) = Suc (unat (cell_count np))"
proof -
  from w have g: "unat (free_start np) + unat sz \<le> unat (free_end np)"
    and off: "off = free_start np"
    and np1: "np1 = np\<lparr> cells := (cells np)(free_start np := Some c),
                           free_start := free_start np + sz \<rparr>"
    by (auto simp: write_raw_record_def split: if_splits)
  have "unat (free_start np) + unat sz < 2 ^ LENGTH(16)"
    using g unsigned_less [of "free_end np", where 'a = nat] by simp
  then have fs: "unat (free_start np + sz) = unat (free_start np) + unat sz"
    by (simp add: unat_add_lem [THEN iffD1])
  from ok have cc: "unat (cell_count np) = length (slots np)"
    and small: "length (slots np) * 2 \<le> PAGE_SIZE"
    and below: "list_all (\<lambda>s. unat s < unat (free_start np)) (slots np)"
    by (simp_all add: dir_ok_def)
  have c1: "unat (cell_count np1) = length (slots np1)" using cc np1 by simp
  note r = insert_slot_Inr [OF i]
  have np2: "np2 = np1\<lparr> free_end := free_end np1 - 2,
                          slots := slots np1 @ [off],
                          cell_count := cell_count np1 + 1 \<rparr>"
    using r(1) c1 by simp
  have "unat (cell_count np) + 1 < 2 ^ LENGTH(16)"
    using cc small by (simp add: PAGE_SIZE_def)
  then have cs: "unat (cell_count np + 1) = Suc (unat (cell_count np))"
    by (simp add: unat_add_lem [THEN iffD1])
  show "slots np2 = slots np @ [free_start np]" using np2 np1 off by simp
  show "cells np2 = (cells np)(free_start np := Some c)" using np2 np1 by simp
  show "page_level np2 = page_level np" "page_id np2 = page_id np"
    "parent_page_id np2 = parent_page_id np" "reserved np2 = reserved np"
    using np2 np1 by simp_all
  show "unat (cell_count np2) = Suc (unat (cell_count np))" using np2 np1 cs by simp
  have "unat (cell_count np1 + 1) * 2 \<le> PAGE_SIZE" using r(2) c1 by simp
  then have "Suc (length (slots np)) * 2 \<le> PAGE_SIZE" using np1 cs cc by simp
  moreover have "list_all (\<lambda>s. unat s < unat (free_start np2)) (slots np2)"
    using below sz fs np2 np1 off by (auto simp: list_all_iff)
  ultimately show "dir_ok np2"
    using np2 np1 cs cc by (simp add: dir_ok_def)
qed


section \<open>Splitting a leaf page\<close>

text \<open>
  C7: \<^verbatim>\<open>split_leaf_page\<close> on a LEAF page with a single record. The claim has
  \<open>split_index\<close> clamped to 1, no record moved, an empty new page and the key at slot 0
  of the original page as separator, and the function has the code for it: the clamp
  and the branch for the empty new page. It never gets there: it stops at its
  assertion \<open>total < 2\<close>, which comes first, and returns nothing.
\<close>

theorem split_leaf_page_single_record_aborts:
  "unat (cell_count one_record_leaf) = 1
   \<and> slot_key one_record_leaf 0 = Inr [1]
   \<and> split_leaf_page (table_with 1 one_record_leaf) one_record_leaf
       = Inl (AssertionFailed ''Cannot split page with less than 2 elements'')"
  by (simp add: eval_simps table_with_def one_record_leaf_def)


section \<open>Splitting an internal page\<close>

lemma internal_entries_append_cell:
  assumes "dir_ok np" and "slots np2 = slots np @ [free_start np]"
    and "cells np2 = (cells np)(free_start np := Some (InternalEntry k c))"
    and "unat (cell_count np2) = Suc (unat (cell_count np))"
  shows "internal_entries np2 = internal_entries np @ [Inr (k, c)]"
proof -
  from assms(1) have cc: "unat (cell_count np) = length (slots np)"
    and below: "\<And>s. s \<in> set (slots np) \<Longrightarrow> s \<noteq> free_start np"
    by (auto simp: dir_ok_def list_all_iff)
  have old: "internal_entry_at np2 i = internal_entry_at np i" if "i < length (slots np)" for i
    using that assms(2,3) below [of "slots np ! i"]
    by (simp add: internal_entry_at_def slot_at_def nth_append)
  have new: "internal_entry_at np2 (length (slots np)) = Inr (k, c)"
    using assms(2,3) by (simp add: internal_entry_at_def slot_at_def)
  show ?thesis
    using old new by (simp add: internal_entries_def assms(4) cc)
qed

lemma unat_entry_size:
  assumes "SIZEOF_InternalEntry + length k \<le> PAGE_SIZE"
  shows "unat (of_nat SIZEOF_InternalEntry + key_size k :: u16) = SIZEOF_InternalEntry + length k"
proof -
  have "(of_nat SIZEOF_InternalEntry + key_size k :: u16) = of_nat (SIZEOF_InternalEntry + length k)"
    by (simp add: key_size_def)
  moreover have "SIZEOF_InternalEntry + length k < 2 ^ LENGTH(16)"
    using assms by (simp add: PAGE_SIZE_def)
  ultimately show ?thesis
    by (rule of_nat_inverse [OF sym])
qed

lemma copy_internal_entries_Inr:
  "copy_internal_entries page new_pid js (th, np) = Inr (th', np') \<Longrightarrow> dir_ok np \<Longrightarrow>
   list_all (\<lambda>i. case internal_entry_at page i of
                    Inr (k, c) \<Rightarrow> SIZEOF_InternalEntry + length k \<le> PAGE_SIZE
                  | Inl e \<Rightarrow> False) js \<Longrightarrow>
   internal_entries np' = internal_entries np @ map (internal_entry_at page) js
   \<and> dir_ok np' \<and> page_level np' = page_level np \<and> page_id np' = page_id np
   \<and> reserved np' = reserved np
   \<and> unat (cell_count np') = unat (cell_count np) + length js
   \<and> next_free_page_id th' = next_free_page_id th \<and> root_page th' = root_page th"
proof (induction js arbitrary: th np)
  case Nil
  then show ?case by simp
next
  case (Cons i js)
  from Cons.prems(3) obtain k c where ent: "internal_entry_at page i = Inr (k, c)"
    and fits: "SIZEOF_InternalEntry + length k \<le> PAGE_SIZE"
    and rest: "list_all (\<lambda>i. case internal_entry_at page i of
                    Inr (k, c) \<Rightarrow> SIZEOF_InternalEntry + length k \<le> PAGE_SIZE
                  | Inl e \<Rightarrow> False) js"
    by (auto split: sum.splits)
  define th1 where
    "th1 = write_page th c ((read_page th c)\<lparr> parent_page_id := new_pid \<rparr>)"
  from Cons.prems(1) ent obtain off np1 np2 where
    w: "write_raw_record np (InternalEntry k c) (of_nat SIZEOF_InternalEntry + key_size k)
          = Inr (off, np1)"
    and ins: "insert_slot np1 (unat (cell_count np1)) off = Inr np2"
    and go: "copy_internal_entries page new_pid js (th1, np2) = Inr (th', np')"
    by (auto simp: andThen_Inr_iff Let_def th1_def)
  have sz: "0 < unat (of_nat SIZEOF_InternalEntry + key_size k :: u16)"
    using unat_entry_size [OF fits] by (simp add: SIZEOF_InternalEntry_def)
  note a = append_cell [OF w ins Cons.prems(2) sz]
  have lr: "internal_entries np2 = internal_entries np @ [Inr (k, c)]"
    by (rule internal_entries_append_cell [OF Cons.prems(2) a(1) a(2) a(8)])
  have t1: "next_free_page_id th1 = next_free_page_id th" "root_page th1 = root_page th"
    by (simp_all add: th1_def write_page_def)
  from Cons.IH [OF go a(3) rest] lr a ent t1 show ?case by simp
qed

lemma internal_entries_from:
  assumes "internal_entries page = map Inr es"
  shows "map (internal_entry_at page) [n..<length es] = map Inr (drop n es)"
proof -
  have "map (internal_entry_at page) [n..<length es]
        = drop n (map (internal_entry_at page) [0..<length es])"
    by (simp add: drop_map)
  also have "map (internal_entry_at page) [0..<length es] = map Inr es"
    using assms internal_entries_nth(1) [OF assms] by (simp add: internal_entries_def)
  finally show ?thesis by (simp add: drop_map)
qed


text \<open>
  The two loops return on a page with room: the removal loop when the directory lies
  inside the page and \<open>free_start\<close> does not exceed \<open>free_end\<close>; the copy loop when the
  entries it copies, each with its slot, fit between \<open>free_start\<close> and \<open>free_end\<close> of the
  page it fills.
\<close>

lemma remove_last_slots_returns:
  "unat (cell_count page) = split_index + rounds \<Longrightarrow>
   split_index + rounds \<le> length (slots page) \<Longrightarrow>
   unat (free_start page) \<le> unat (free_end page) \<Longrightarrow>
   unat (free_end page) + 2 * (split_index + rounds) \<le> PAGE_SIZE \<Longrightarrow>
   \<exists>page'. remove_last_slots rounds split_index page = Inr page'"
proof (induction rounds arbitrary: page)
  case 0
  then show ?case by simp
next
  case (Suc r)
  from Suc.prems(1) have nz: "cell_count page \<noteq> 0" by (auto simp: unat_eq_0)
  then have last: "unat (cell_count page - 1) = split_index + r"
    using Suc.prems(1) by (simp add: unat_minus_one)
  define p1 where
    "p1 = page\<lparr> free_end := free_end page + 2,
                 slots := replicate (split_index + r) (slots page ! 0)
                          @ drop (Suc (split_index + r)) (slots page),
                 cell_count := cell_count page - 1 \<rparr>"
  have "unat (free_end page) + 2 < 2 ^ LENGTH(16)"
    using Suc.prems(4) by (simp add: PAGE_SIZE_def)
  then have fe: "unat (free_end page + 2) = unat (free_end page) + 2"
    using unat_add_lem [of "free_end page" 2] by simp
  have a1: "free_start page \<le> free_end page + 2"
    using Suc.prems(3) fe by (simp add: word_le_nat_alt)
  have a2: "unat (cell_count page - 1) * 2 \<le> PAGE_SIZE"
    using last Suc.prems(4) by simp
  have rs: "remove_slot page (split_index + r) = Inr p1"
    using a1 a2
    by (subst remove_slot_eq) (use Suc.prems in \<open>simp_all add: Let_def p1_def\<close>)
  have "\<exists>page'. remove_last_slots r split_index p1 = Inr page'"
  proof (rule Suc.IH)
    show "unat (cell_count p1) = split_index + r" using last by (simp add: p1_def)
    show "split_index + r \<le> length (slots p1)" using Suc.prems(2) by (simp add: p1_def)
    show "unat (free_start p1) \<le> unat (free_end p1)" using Suc.prems(3) fe by (simp add: p1_def)
    show "unat (free_end p1) + 2 * (split_index + r) \<le> PAGE_SIZE"
      using Suc.prems(4) fe by (simp add: p1_def)
  qed
  with rs last show ?case by (simp add: Let_def)
qed

lemma copy_internal_entries_returns:
  "dir_ok np \<Longrightarrow> unat (free_end np) + 2 * unat (cell_count np) \<le> PAGE_SIZE \<Longrightarrow>
   map (internal_entry_at page) js = map Inr es \<Longrightarrow>
   unat (free_start np) + sum_list (map (\<lambda>(k, c). SIZEOF_InternalEntry + length k + 2) es)
     \<le> unat (free_end np) \<Longrightarrow>
   \<exists>th' np'. copy_internal_entries page new_pid js (th, np) = Inr (th', np')"
proof (induction js arbitrary: th np es)
  case Nil
  then show ?case by simp
next
  case (Cons i js)
  from Cons.prems(3) obtain k c es' where es: "es = (k, c) # es'"
    and ent: "internal_entry_at page i = Inr (k, c)"
    and rest: "map (internal_entry_at page) js = map Inr es'"
    by (cases es) auto
  define sz :: u16 where "sz = of_nat SIZEOF_InternalEntry + key_size k"
  from Cons.prems(4) es
  have space: "unat (free_start np) + (SIZEOF_InternalEntry + length k) + 2
               + sum_list (map (\<lambda>(k, c). SIZEOF_InternalEntry + length k + 2) es')
               \<le> unat (free_end np)"
    by simp
  have fe: "unat (free_end np) \<le> PAGE_SIZE" using Cons.prems(2) by simp
  have "SIZEOF_InternalEntry + length k \<le> PAGE_SIZE" using space fe by simp
  then have usz: "unat sz = SIZEOF_InternalEntry + length k"
    unfolding sz_def by (rule unat_entry_size)
  define np1 where
    "np1 = np\<lparr> cells := (cells np)(free_start np := Some (InternalEntry k c)),
               free_start := free_start np + sz \<rparr>"
  have w: "write_raw_record np (InternalEntry k c) sz = Inr (free_start np, np1)"
    using space usz by (simp add: write_raw_record_def np1_def)
  from Cons.prems(1) have cc: "unat (cell_count np) = length (slots np)"
    by (simp add: dir_ok_def)
  define np2 where
    "np2 = np1\<lparr> free_end := free_end np1 - 2,
                slots := take (unat (cell_count np1)) (slots np1) @ free_start np
                         # drop (unat (cell_count np1)) (slots np1),
                cell_count := cell_count np1 + 1 \<rparr>"
  have "unat (free_start np) + unat sz < 2 ^ LENGTH(16)"
    using space usz unsigned_less [of "free_end np", where 'a = nat] by simp
  then have fs: "unat (free_start np + sz) = unat (free_start np) + unat sz"
    by (simp add: unat_add_lem [THEN iffD1])
  have two: "2 \<le> unat (free_end np)" using space by simp
  then have "(2 :: u16) \<le> free_end np" by (simp add: word_le_nat_alt)
  then have fe2: "unat (free_end np - 2) = unat (free_end np) - 2"
    by (simp add: unat_sub)
  have "unat (cell_count np) + 1 < 2 ^ LENGTH(16)"
    using Cons.prems(2) by (simp add: PAGE_SIZE_def)
  then have cs: "unat (cell_count np + 1) = Suc (unat (cell_count np))"
    by (simp add: unat_add_lem [THEN iffD1])
  have a1: "free_start np1 \<le> free_end np1 - 2"
    using space usz fs fe2 by (simp add: word_le_nat_alt np1_def)
  have a2: "unat (cell_count np1 + 1) * 2 \<le> PAGE_SIZE"
    using cs Cons.prems(2) two by (simp add: np1_def)
  have ins: "insert_slot np1 (unat (cell_count np1)) (free_start np) = Inr np2"
    using a1 a2 cc
    by (subst insert_slot_eq) (simp_all add: Let_def np2_def np1_def)
  have szpos: "0 < unat sz" using usz by (simp add: SIZEOF_InternalEntry_def)
  note a = append_cell [OF w ins Cons.prems(1) szpos]
  define th1 where
    "th1 = write_page th c ((read_page th c)\<lparr> parent_page_id := new_pid \<rparr>)"
  have "\<exists>th' np'. copy_internal_entries page new_pid js (th1, np2) = Inr (th', np')"
  proof (rule Cons.IH [OF a(3) _ rest])
    show "unat (free_end np2) + 2 * unat (cell_count np2) \<le> PAGE_SIZE"
      using Cons.prems(2) fe2 two cs by (simp add: np2_def np1_def)
    show "unat (free_start np2)
            + sum_list (map (\<lambda>(k, c). SIZEOF_InternalEntry + length k + 2) es')
          \<le> unat (free_end np2)"
      using space fs fe2 usz by (simp add: np2_def np1_def)
  qed
  with ent w ins show ?case
    by (simp add: Let_def th1_def sz_def)
qed

lemma sum_list_drop_le:
  fixes f :: "'a \<Rightarrow> nat"
  shows "sum_list (map f (drop n xs)) \<le> sum_list (map f xs)"
proof -
  have "sum_list (map f xs) = sum_list (map f (take n xs)) + sum_list (map f (drop n xs))"
    by (metis append_take_drop_id map_append sum_list_append)
  then show ?thesis by simp
qed


lemma unat_key_size_small: "length k \<le> 256 \<Longrightarrow> unat (key_size k) = length k"
proof -
  assume "length k \<le> 256"
  then have "length k < 2 ^ LENGTH(16)" by simp
  then show ?thesis
    unfolding key_size_def by (rule of_nat_inverse [OF refl])
qed

text \<open>
  C4, amended: \<^verbatim>\<open>split_internal_page\<close>, applied to an INTERNAL page with
  \<open>cell_count \<ge> 2\<close> whose directory holds \<open>cell_count\<close> slots that point to entries,
  with \<open>free_start \<le> free_end\<close>, the directory inside the page, the entries with their
  slots fitting an empty page, and the key at slot \<open>mid = cell_count / 2\<close> at most 256
  bytes long, returns. The separator it returns has the size of the key at slot \<open>mid\<close>
  (the bytes are not part of the statement: the pointer it returns is to a buffer local
  to the function). It copies exactly the entries at slots \<open>mid + 1\<close> to
  \<open>cell_count - 1\<close>, in order, to the new INTERNAL page, whose leftmost-child pointer
  becomes \<open>entry[mid].child_page\<close>. And it removes the slots \<open>mid\<close> to \<open>cell_count - 1\<close>
  from the left page, slot \<open>mid\<close> included: after the call the left page has
  \<open>cell_count = mid\<close> and a directory of \<open>mid\<close> slots. (Which entries those slots point
  to is not part of the statement.)
\<close>

theorem split_internal_page_shape:
  assumes lv: "page_level page = INTERNAL"
    and dir: "length (slots page) = unat (cell_count page)"
    and hdr: "unat (free_start page) \<le> unat (free_end page)"
      "unat (free_end page) + 2 * unat (cell_count page) \<le> PAGE_SIZE"
    and ents: "internal_entries page = map Inr es"
    and two: "2 \<le> length es"
    and small: "length (fst (es ! (length es div 2))) \<le> 256"
    and fit: "SIZEOF_PageHeader
              + sum_list (map (\<lambda>(k, c). SIZEOF_InternalEntry + length k + 2) es) \<le> PAGE_SIZE"
  shows "\<exists>res th' page'. split_internal_page th page = Inr (res, th', page')
     \<and> new_page res = next_free_page_id th
     \<and> key_ref_size (seperator_key res) = key_size (fst (es ! (length es div 2)))
     \<and> page_level (read_page th' (new_page res)) = INTERNAL
     \<and> internal_entries (read_page th' (new_page res)) = map Inr (drop (length es div 2 + 1) es)
     \<and> reserved (read_page th' (new_page res)) = snd (es ! (length es div 2))
     \<and> unat (cell_count page') = length es div 2
     \<and> length (slots page') = length es div 2"
proof -
  define total where "total = unat (cell_count page)"
  define mid where "mid = total div 2"
  define th1 where "th1 = th\<lparr> next_free_page_id := next_free_page_id th + 1 \<rparr>"
  define np0 where "np0 = init_page (next_free_page_id th) INDEX INTERNAL"
  note e = internal_entries_nth [OF ents]
  have len: "length es = total" using e(1) by (simp add: total_def)
  have t2: "2 \<le> total" using two len by simp
  then have mid: "mid < total" "0 < mid" by (auto simp: mid_def)
  have em: "internal_entry_at page mid = Inr (es ! mid)" using e(2) mid len by simp
  then have km: "slot_key page mid = Inr (fst (es ! mid))"
    using lv by (simp add: slot_key_def split_beta)
  have small': "\<not> unat (key_size (fst (es ! mid))) > 256"
    using small unat_key_size_small [of "fst (es ! mid)"] by (simp add: len mid_def)
  have ok0: "dir_ok np0" by (simp add: np0_def dir_ok_init_page)
  have from_mid: "map (internal_entry_at page) [mid + 1..<total] = map Inr (drop (mid + 1) es)"
    using internal_entries_from [OF ents, of "mid + 1"] len by simp
  have "sum_list (map (\<lambda>(k, c). SIZEOF_InternalEntry + length k + 2) (drop (mid + 1) es))
        \<le> sum_list (map (\<lambda>(k, c). SIZEOF_InternalEntry + length k + 2) es)"
    by (rule sum_list_drop_le)
  with fit have space: "unat (free_start np0)
      + sum_list (map (\<lambda>(k, c). SIZEOF_InternalEntry + length k + 2) (drop (mid + 1) es))
      \<le> unat (free_end np0)"
    by (simp add: np0_def init_page_def SIZEOF_PageHeader_def PAGE_SIZE_def)
  have room: "unat (free_end np0) + 2 * unat (cell_count np0) \<le> PAGE_SIZE"
    by (simp add: np0_def init_page_def PAGE_SIZE_def)
  from copy_internal_entries_returns [OF ok0 room from_mid space]
  obtain th2 np1 where
    cp: "copy_internal_entries page (next_free_page_id th) [mid + 1..<total] (th1, np0)
           = Inr (th2, np1)"
    by blast
  have cnt: "unat (cell_count page) = mid + (total - mid)"
    and sl: "mid + (total - mid) \<le> length (slots page)"
    using mid(1) dir by (simp_all add: total_def)
  have "unat (free_end page) + 2 * (mid + (total - mid)) \<le> PAGE_SIZE"
    using hdr(2) mid(1) by (simp add: total_def)
  from remove_last_slots_returns [OF cnt sl hdr(1) this]
  obtain page1 where rm: "remove_last_slots (total - mid) mid page = Inr page1"
    by blast
  define np3 where
    "np3 = (if snd (es ! mid) \<noteq> 0 then np1\<lparr> reserved := snd (es ! mid) \<rparr> else np1)
             \<lparr> parent_page_id := parent_page_id page1 \<rparr>"
  define res where
    "res = \<lparr> new_page = next_free_page_id th,
             seperator_key = DeadKey (key_size (fst (es ! mid))) \<rparr>"
  define th' where "th' = write_page th2 (next_free_page_id th) np3"
  have call: "split_internal_page th page = Inr (res, th', page1)"
    using lv t2 mid(1) km em small' cp rm
    unfolding split_internal_page_def allocate_page_def Let_def total_def [symmetric]
      mid_def [symmetric]
    by (simp add: np0_def th1_def split_beta res_def th'_def np3_def)
  have src: "list_all (\<lambda>i. case internal_entry_at page i of
                    Inr (k, c) \<Rightarrow> SIZEOF_InternalEntry + length k \<le> PAGE_SIZE
                  | Inl e \<Rightarrow> False) [mid + 1..<total]"
  proof -
    have "SIZEOF_InternalEntry + length (fst (es ! i)) \<le> PAGE_SIZE" if "i < total" for i
    proof -
      have "(\<lambda>(k, c). SIZEOF_InternalEntry + length k + 2) (es ! i)
            \<in> set (map (\<lambda>(k, c). SIZEOF_InternalEntry + length k + 2) es)"
        using that len by simp
      from member_le_sum_list [OF this] fit show ?thesis by (simp add: split_beta)
    qed
    then show ?thesis using e(2) len by (auto simp: list_all_iff split_beta)
  qed
  have e0: "internal_entries np0 = []" "page_level np0 = INTERNAL" "unat (cell_count np0) = 0"
    "reserved np0 = 0"
    by (simp_all add: np0_def internal_entries_def init_page_def)
  from copy_internal_entries_Inr [OF cp ok0 src] e0 from_mid
  have n1: "internal_entries np1 = map Inr (drop (mid + 1) es)" "page_level np1 = INTERNAL"
    "reserved np1 = 0"
    by simp_all
  from remove_last_slots_Inr [OF rm cnt sl] dir mid(1)
  have c1: "unat (cell_count page1) = mid" "length (slots page1) = mid"
    by (simp_all add: total_def)
  have rd: "read_page th' (new_page res) = np3"
    by (simp add: th'_def res_def read_page_def write_page_def)
  have i3: "internal_entries np3 = internal_entries np1"
    by (simp add: np3_def internal_entries_def internal_entry_at_def slot_at_def)
  have l3: "page_level np3 = INTERNAL" "reserved np3 = snd (es ! mid)"
    using n1 by (simp_all add: np3_def)
  have "new_page res = next_free_page_id th"
    "key_ref_size (seperator_key res) = key_size (fst (es ! mid))"
    by (simp_all add: res_def)
  with call rd i3 l3 n1(1) c1 show ?thesis
    by (simp add: len mid_def)
qed

lemma four_entry_page_entries:
  "internal_entries four_entry_page = map Inr [([98], 5), ([100], 6), ([102], 7), ([104], 8)]"
  by (simp add: internal_entries_def four_entry_page_def internal_entry_at_def slot_at_def
        init_page_def upt_conv_Cons)

theorem split_internal_page_shape_witness:
  "\<exists>res th' page'.
     split_internal_page (table_with 3 four_entry_page) four_entry_page = Inr (res, th', page')
     \<and> new_page res = 9 \<and> key_ref_size (seperator_key res) = 1
     \<and> page_level (read_page th' (new_page res)) = INTERNAL
     \<and> internal_entries (read_page th' (new_page res)) = [Inr ([104], 8)]
     \<and> reserved (read_page th' (new_page res)) = 7
     \<and> unat (cell_count page') = 2
     \<and> length (slots page') = 2"
proof -
  let ?es = "[([98 :: u8], 5 :: u32), ([100], 6), ([102], 7), ([104], 8)]"
  have lv: "page_level four_entry_page = INTERNAL"
    and dir: "length (slots four_entry_page) = unat (cell_count four_entry_page)"
    and hdr: "unat (free_start four_entry_page) \<le> unat (free_end four_entry_page)"
      "unat (free_end four_entry_page) + 2 * unat (cell_count four_entry_page) \<le> PAGE_SIZE"
    by (simp_all add: four_entry_page_def init_page_def PAGE_SIZE_def)
  have two: "2 \<le> length ?es" and small: "length (fst (?es ! (length ?es div 2))) \<le> 256"
    and fit: "SIZEOF_PageHeader
              + sum_list (map (\<lambda>(k, c). SIZEOF_InternalEntry + length k + 2) ?es) \<le> PAGE_SIZE"
    by (simp_all add: SIZEOF_PageHeader_def SIZEOF_InternalEntry_def PAGE_SIZE_def)
  have nf: "next_free_page_id (table_with 3 four_entry_page) = 9"
    by (simp add: table_with_def)
  from split_internal_page_shape
         [OF lv dir hdr four_entry_page_entries two small fit, of "table_with 3 four_entry_page"]
  have "\<exists>res th' page'.
     split_internal_page (table_with 3 four_entry_page) four_entry_page = Inr (res, th', page')
     \<and> new_page res = 9 \<and> key_ref_size (seperator_key res) = 1
     \<and> page_level (read_page th' (new_page res)) = INTERNAL
     \<and> internal_entries (read_page th' (new_page res)) = [Inr ([104], 8)]
     \<and> reserved (read_page th' (new_page res)) = 7
     \<and> unat (cell_count page') = Suc (Suc 0)
     \<and> length (slots page') = Suc (Suc 0)"
    by (simp add: nf key_size_def)
  then show ?thesis by (simp add: numeral_2_eq_2)
qed

text \<open>
  C4, as the claim states it, fails in its last part: on a page with the two entries
  ("b", 5) and ("d", 6), \<open>mid\<close> is 1, the separator has the size of "d", and after the
  call the left page has one slot, the entry ("b", 5). The entry at slot \<open>mid\<close> is no
  longer on it.
\<close>

theorem split_internal_page_removes_slot_mid:
  "(case split_internal_page (table_with 3 two_entry_page) two_entry_page of
      Inr (res, th', page') \<Rightarrow>
        internal_entries two_entry_page = [Inr ([98], 5), Inr ([100], 6)]
        \<and> key_ref_size (seperator_key res) = 1
        \<and> unat (cell_count page') = 1
        \<and> internal_entries page' = [Inr ([98], 5)]
    | Inl e \<Rightarrow> False)"
  by (simp add: eval_simps table_with_def two_entry_page_def internal_entries_def)


section \<open>Inserting a key that is already there\<close>












section \<open>Runs on a fresh table\<close>

text \<open>
  C1 (round trip). Five records with one-byte keys and values of 1,900 bytes are
  inserted into a fresh table in ascending key order. Four of them fill the leaf; the
  fifth insert splits it. Every insert returns true, and afterwards \<^verbatim>\<open>btree_search\<close> does
  not find the second key: the split removes slots 3 and 2 from the left page with
  \<^verbatim>\<open>remove_slot\<close>, whose first loop overwrites slot 1 with slot 0.
\<close>

theorem round_trip_lost_after_leaf_split:
  "(case insert_all fresh_table
           [([1], replicate 1900 65), ([3], replicate 1900 65), ([5], replicate 1900 65),
            ([7], replicate 1900 65), ([9], replicate 1900 65)] of
      Some (Inr (bs, th)) \<Rightarrow>
        bs = [True, True, True, True, True] \<and> btree_search th [3] = Some (Inr None)
    | _ \<Rightarrow> False)"
  by (simp add: eval_simps)

text \<open>
  C2 (separator contract). After the same five inserts, a sixth record with key 2 goes
  to the left leaf, which now holds the record of key 1 twice. The leaf splits again:
  its second slot, a copy of the first, moves to a new page and key 1 is lifted as the
  separator, into position 0 of the root. All six inserts return true, and the root's
  leftmost subtree then holds key 1, which is not smaller than the root's first key 1.
\<close>

theorem separator_contract_broken_after_second_split:
  "(case insert_all fresh_table
           [([1], replicate 1900 65), ([3], replicate 1900 65), ([5], replicate 1900 65),
            ([7], replicate 1900 65), ([9], replicate 1900 65), ([2], replicate 1900 65)] of
      Some (Inr (bs, th)) \<Rightarrow>
        bs = [True, True, True, True, True, True]
        \<and> page_level (read_page th (root_page th)) = INTERNAL
        \<and> internal_entry_at (read_page th (root_page th)) 0 = Inr ([1], 4)
        \<and> subtree_keys 3 th (reserved (read_page th (root_page th))) = [[1]]
        \<and> \<not> separator_contract_at 3 th (root_page th)
    | _ \<Rightarrow> False)"
  by (simp add: eval_simps subtree_keys_unfold separator_contract_at_def left_child_of_def
        cong: map_weak_cong list_all_weak_cong)

text \<open>
  C5 (oversized record). A record whose value of 8,150 bytes fills the leaf is inserted
  into a fresh table; the insert returns true. The next insert, of a one-byte record
  with a smaller key, finds no room and calls \<^verbatim>\<open>split_leaf_page\<close> on a page with one
  record, which stops at its assertion: nothing is moved and the second record is not
  inserted. A larger key ends the same way.
\<close>

theorem oversized_record_then_small_record_aborts:
  "(case btree_insert fresh_table [98, 105, 103] (replicate 8150 65) of
      Some (Inr (b, th)) \<Rightarrow>
        b \<and> btree_insert th [97] [120]
              = Some (Inl (AssertionFailed ''Cannot split page with less than 2 elements''))
          \<and> btree_insert th [99] [120]
              = Some (Inl (AssertionFailed ''Cannot split page with less than 2 elements''))
    | _ \<Rightarrow> False)"
  by (simp add: eval_simps)

text \<open>
  C9 (page-id bound). An INTERNAL root whose only entry has the child page 2,000,000:
  for a key at or above the entry's key, \<^verbatim>\<open>internal_find_child\<close> takes the branch
  \<open>pos = cell_count\<close>, which returns the child unchecked. \<^verbatim>\<open>find_leaf_page\<close> then returns
  the sentinel, and \<^verbatim>\<open>btree_insert\<close>, which does not test for it, inserts into the buffer
  of the root and writes it to page 0xFFFFFFFF.
\<close>

theorem internal_find_child_returns_unchecked_last_child:
  "internal_find_child corrupt_root [98] = Inr 2000000
   \<and> find_leaf_page corrupt_table [98] = Some (Inr (UINT32_MAX, corrupt_root))
   \<and> (case btree_insert corrupt_table [98] [120] of
         Some (Inr (b, th)) \<Rightarrow>
           b \<and> page_id (read_page th 0xFFFFFFFF) = 1
             \<and> leaf_record_at (read_page th 0xFFFFFFFF) 1 = Inr ([98], [120])
       | _ \<Rightarrow> False)"
  by (simp add: eval_simps corrupt_root_def corrupt_table_def)

end
